theory Spec2Isabelle
  imports Main "HOL-Library.Char_ord" "HOL-Library.List_Lexorder" "HOL-Library.Sublist"
begin

section \<open>Python text primitives\<close>

text \<open>
  A Python \<open>str\<close> is modelled as a \<open>string\<close>: a list of characters whose code points lie
  below 256. The classifications below are Python's for exactly those code points
  (\<open>str.isspace\<close>, \<open>str.isalnum\<close>, \<open>str.lower\<close>); the patterns of the program contain
  ASCII letters only, and no code point below 256 other than an ASCII letter folds to one.
\<close>

definition in_rng :: "char \<Rightarrow> char \<Rightarrow> char \<Rightarrow> bool" where
  "in_rng a b c = (a \<le> c \<and> c \<le> b)"

definition py_isspace :: "char \<Rightarrow> bool" where
  "py_isspace c =
     (in_rng (CHR 0x09) (CHR 0x0D) c \<or> in_rng (CHR 0x1C) (CHR 0x20) c
      \<or> c = CHR 0x85 \<or> c = CHR 0xA0)"

definition py_isdigit :: "char \<Rightarrow> bool" where
  "py_isdigit c = in_rng CHR ''0'' CHR ''9'' c"

definition py_isword :: "char \<Rightarrow> bool" where
  \<comment> \<open>\<open>\w\<close> of a \<open>str\<close> pattern: alphanumeric in Python's sense, or the underscore\<close>
  "py_isword c =
     (in_rng CHR ''a'' CHR ''z'' c \<or> in_rng CHR ''A'' CHR ''Z'' c \<or> in_rng CHR ''0'' CHR ''9'' c
      \<or> c = CHR ''_''
      \<or> c = CHR 0xAA \<or> c = CHR 0xB2 \<or> c = CHR 0xB3 \<or> c = CHR 0xB5 \<or> c = CHR 0xB9
      \<or> c = CHR 0xBA \<or> in_rng (CHR 0xBC) (CHR 0xBE) c
      \<or> in_rng (CHR 0xC0) (CHR 0xD6) c \<or> in_rng (CHR 0xD8) (CHR 0xF6) c
      \<or> in_rng (CHR 0xF8) (CHR 0xFF) c)"

definition shift32 :: "char \<Rightarrow> char" where
  "shift32 c = char_of (of_char c + (32::nat))"

definition py_lower_char :: "char \<Rightarrow> char" where
  "py_lower_char c =
     (if in_rng CHR ''A'' CHR ''Z'' c \<or> (in_rng (CHR 0xC0) (CHR 0xDE) c \<and> c \<noteq> CHR 0xD7)
      then shift32 c else c)"

definition py_lower :: "string \<Rightarrow> string" where
  "py_lower s = map py_lower_char s"

definition py_strip :: "string \<Rightarrow> string" where
  "py_strip s = rev (dropWhile py_isspace (rev (dropWhile py_isspace s)))"

text \<open>\<open>s.split(sep)\<close> for a one-character separator; the result is never empty.\<close>

fun py_split :: "char \<Rightarrow> string \<Rightarrow> string list" where
  "py_split sep [] = [[]]"
| "py_split sep (c # cs) =
     (if c = sep then [] # py_split sep cs
      else (case py_split sep cs of [] \<Rightarrow> [[c]] | p # ps \<Rightarrow> (c # p) # ps))"

text \<open>\<open>x in s\<close> on strings: \<open>x\<close> occurs in \<open>s\<close> as a contiguous run.\<close>

fun py_in :: "string \<Rightarrow> string \<Rightarrow> bool" where
  "py_in x [] = (x = [])"
| "py_in x (c # cs) = (prefix x (c # cs) \<or> py_in x cs)"

definition startswith :: "string \<Rightarrow> string \<Rightarrow> bool" where
  "startswith s p = prefix p s"

definition endswith :: "string \<Rightarrow> string \<Rightarrow> bool" where
  "endswith s p = suffix p s"

text \<open>
  A Python \<open>dict\<close> keeps its keys in insertion order; assigning to a key that is present
  replaces the value where the key stands.
\<close>

fun dict_set :: "('k \<times> 'v) list \<Rightarrow> 'k \<Rightarrow> 'v \<Rightarrow> ('k \<times> 'v) list" where
  "dict_set [] k v = [(k, v)]"
| "dict_set ((k', v') # d) k v =
     (if k' = k then (k, v) # d else (k', v') # dict_set d k v)"

definition dict_of_items :: "('k \<times> 'v) list \<Rightarrow> ('k \<times> 'v) list" where
  \<comment> \<open>a dict comprehension: the items are assigned one after the other\<close>
  "dict_of_items kvs = foldl (\<lambda>d (k, v). dict_set d k v) [] kvs"

definition dict_keys :: "('k \<times> 'v) list \<Rightarrow> 'k list" where
  "dict_keys d = map fst d"

definition dict_get :: "('k \<times> 'v) list \<Rightarrow> 'k \<Rightarrow> 'v option" where
  "dict_get d k = map_of d k"

section \<open>The regular expressions of the program\<close>

text \<open>
  The patterns are kept as syntax trees and run by a backtracking matcher that returns
  every way to match, in the order in which Python's \<open>re\<close> tries them; the first one is
  the match \<open>re\<close> reports. In all patterns of the program a repetition (\<open>*\<close>, \<open>+\<close>, \<open>*?\<close>)
  applies to a single character class, so repetition is recursion on the text.
\<close>

datatype citem = Ch char | Rng char char | Space | Word | Digit

datatype cset = In "citem list" | NotIn "citem list" | AnyChar

datatype regex =
    Eps
  | Lit char
  | Set cset
  | Star cset
  | Plus cset
  | LazyStar cset
  | Opt regex
  | Seq regex regex
  | Alt regex regex
  | Grp nat regex
  | WordB
  | Bol
  | Eol
  | NotBehind char

fun citem_has :: "citem \<Rightarrow> char \<Rightarrow> bool" where
  "citem_has (Ch a) c = (c = a)"
| "citem_has (Rng a b) c = in_rng a b c"
| "citem_has Space c = py_isspace c"
| "citem_has Word c = py_isword c"
| "citem_has Digit c = py_isdigit c"

fun cset_has :: "cset \<Rightarrow> char \<Rightarrow> bool" where
  "cset_has (In is) c = list_ex (\<lambda>i. citem_has i c) is"
| "cset_has (NotIn is) c = (\<not> list_ex (\<lambda>i. citem_has i c) is)"
| "cset_has AnyChar c = True"

text \<open>
  A matcher state: the character before the current position (none at the start of the
  text), the text still to read, the current position, and the spans of the groups
  captured so far (group number, start, end), the latest first.
\<close>

type_synonym mstate = "char option \<times> string \<times> nat \<times> (nat \<times> nat \<times> nat) list"

fun greedy :: "cset \<Rightarrow> mstate \<Rightarrow> mstate list" where
  "greedy cs (prev, [], pos, caps) = [(prev, [], pos, caps)]"
| "greedy cs (prev, c # rest, pos, caps) =
     (if cset_has cs c then greedy cs (Some c, rest, Suc pos, caps) @ [(prev, c # rest, pos, caps)]
      else [(prev, c # rest, pos, caps)])"

fun lazy :: "cset \<Rightarrow> mstate \<Rightarrow> mstate list" where
  "lazy cs (prev, [], pos, caps) = [(prev, [], pos, caps)]"
| "lazy cs (prev, c # rest, pos, caps) =
     (if cset_has cs c then (prev, c # rest, pos, caps) # lazy cs (Some c, rest, Suc pos, caps)
      else [(prev, c # rest, pos, caps)])"

definition is_word_opt :: "char option \<Rightarrow> bool" where
  "is_word_opt p = (case p of None \<Rightarrow> False | Some c \<Rightarrow> py_isword c)"

definition next_char :: "string \<Rightarrow> char option" where
  "next_char s = (case s of [] \<Rightarrow> None | c # _ \<Rightarrow> Some c)"

primrec rmatch :: "bool \<Rightarrow> regex \<Rightarrow> mstate \<Rightarrow> mstate list" where
  "rmatch ic Eps st = [st]"
| "rmatch ic (Lit a) st =
     (case st of (prev, s, pos, caps) \<Rightarrow>
        (case s of [] \<Rightarrow> []
         | c # rest \<Rightarrow>
             if (if ic then py_lower_char c = py_lower_char a else c = a)
             then [(Some c, rest, Suc pos, caps)] else []))"
| "rmatch ic (Set cs) st =
     (case st of (prev, s, pos, caps) \<Rightarrow>
        (case s of [] \<Rightarrow> []
         | c # rest \<Rightarrow> if cset_has cs c then [(Some c, rest, Suc pos, caps)] else []))"
| "rmatch ic (Star cs) st = greedy cs st"
| "rmatch ic (Plus cs) st =
     (case st of (prev, s, pos, caps) \<Rightarrow>
        (case s of [] \<Rightarrow> []
         | c # rest \<Rightarrow> if cset_has cs c then greedy cs (Some c, rest, Suc pos, caps) else []))"
| "rmatch ic (LazyStar cs) st = lazy cs st"
| "rmatch ic (Opt r) st = rmatch ic r st @ [st]"
| "rmatch ic (Seq r1 r2) st = concat (map (rmatch ic r2) (rmatch ic r1 st))"
| "rmatch ic (Alt r1 r2) st = rmatch ic r1 st @ rmatch ic r2 st"
| "rmatch ic (Grp n r) st =
     map (\<lambda>(prev', s', pos', caps'). (prev', s', pos', (n, fst (snd (snd st)), pos') # caps'))
         (rmatch ic r st)"
| "rmatch ic WordB st =
     (case st of (prev, s, pos, caps) \<Rightarrow>
        if is_word_opt prev \<noteq> is_word_opt (next_char s) then [st] else [])"
| "rmatch ic Bol st = (case st of (prev, s, pos, caps) \<Rightarrow> if prev = None then [st] else [])"
| "rmatch ic Eol st =
     (case st of (prev, s, pos, caps) \<Rightarrow> if s = [] \<or> s = [CHR 0x0A] then [st] else [])"
| "rmatch ic (NotBehind a) st =
     (case st of (prev, s, pos, caps) \<Rightarrow> if prev = Some a then [] else [st])"

definition cat :: "regex list \<Rightarrow> regex" where
  "cat rs = foldr Seq rs Eps"

definition lit :: "string \<Rightarrow> regex" where
  "lit s = cat (map Lit s)"

text \<open>A match object: where the match starts and ends, and the spans of its groups.\<close>

record match =
  m_start :: nat
  m_end :: nat
  m_caps :: "(nat \<times> nat \<times> nat) list"

definition mk_match :: "nat \<Rightarrow> mstate \<Rightarrow> match" where
  "mk_match p st = (case st of (prev, s, pos, caps) \<Rightarrow> \<lparr>m_start = p, m_end = pos, m_caps = caps\<rparr>)"

definition substr :: "string \<Rightarrow> nat \<Rightarrow> nat \<Rightarrow> string" where
  "substr s a b = take (b - a) (drop a s)"

definition group :: "string \<Rightarrow> match \<Rightarrow> nat \<Rightarrow> string" where
  \<comment> \<open>\<open>m.group(n)\<close>; every group of every pattern below takes part in every match\<close>
  "group s m n = (case map_of (m_caps m) n of None \<Rightarrow> [] | Some (a, b) \<Rightarrow> substr s a b)"

definition re_match :: "bool \<Rightarrow> regex \<Rightarrow> string \<Rightarrow> match option" where
  "re_match ic r s = (case rmatch ic r (None, s, 0, []) of [] \<Rightarrow> None | st # _ \<Rightarrow> Some (mk_match 0 st))"

text \<open>\<open>re.search\<close>: the leftmost position at which the pattern matches.\<close>

fun search_from :: "bool \<Rightarrow> regex \<Rightarrow> char option \<Rightarrow> string \<Rightarrow> nat \<Rightarrow> match option" where
  "search_from ic r prev [] pos =
     (case rmatch ic r (prev, [], pos, []) of [] \<Rightarrow> None | st # _ \<Rightarrow> Some (mk_match pos st))"
| "search_from ic r prev (c # cs) pos =
     (case rmatch ic r (prev, c # cs, pos, []) of
        [] \<Rightarrow> search_from ic r (Some c) cs (Suc pos)
      | st # _ \<Rightarrow> Some (mk_match pos st))"

definition re_search :: "bool \<Rightarrow> regex \<Rightarrow> string \<Rightarrow> match option" where
  "re_search ic r s = search_from ic r None s 0"

text \<open>
  \<open>finditer\<close>: the matches from left to right, none overlapping. \<open>skip\<close> counts the
  characters of the last match still to pass; after an empty match the scan moves on by
  one character (none of the patterns scanned this way matches the empty text).
\<close>

fun scan :: "bool \<Rightarrow> regex \<Rightarrow> char option \<Rightarrow> string \<Rightarrow> nat \<Rightarrow> nat \<Rightarrow> match list" where
  "scan ic r prev [] pos skip =
     (if 0 < skip then []
      else (case rmatch ic r (prev, [], pos, []) of [] \<Rightarrow> [] | st # _ \<Rightarrow> [mk_match pos st]))"
| "scan ic r prev (c # cs) pos skip =
     (if 0 < skip then scan ic r (Some c) cs (Suc pos) (skip - 1)
      else (case rmatch ic r (prev, c # cs, pos, []) of
              [] \<Rightarrow> scan ic r (Some c) cs (Suc pos) 0
            | st # _ \<Rightarrow>
                mk_match pos st
                # scan ic r (Some c) cs (Suc pos) (m_end (mk_match pos st) - pos - 1)))"

definition finditer :: "bool \<Rightarrow> regex \<Rightarrow> string \<Rightarrow> match list" where
  "finditer ic r s = scan ic r None s 0 0"

text \<open>\<open>re.sub\<close> with a replacement text that refers to no group.\<close>

fun splice :: "string \<Rightarrow> nat \<Rightarrow> match list \<Rightarrow> string \<Rightarrow> string" where
  "splice s pos [] repl = drop pos s"
| "splice s pos (m # ms) repl =
     substr s pos (m_start m) @ repl @ splice s (m_end m) ms repl"

definition re_sub :: "bool \<Rightarrow> regex \<Rightarrow> string \<Rightarrow> string \<Rightarrow> string" where
  "re_sub ic r repl s = splice s 0 (finditer ic r s) repl"

section \<open>app.py: the SQL surface extractor and the policy gate\<close>

definition ws :: cset where "ws = In [Space]"

definition FENCE_OPEN_RE :: regex where
  \<comment> \<open>\<^verbatim>\<open>^```(?:sql)?\s*\<close>, IGNORECASE\<close>
  "FENCE_OPEN_RE = cat [Bol, lit ''```'', Opt (lit ''sql''), Star ws]"

definition FENCE_CLOSE_RE :: regex where
  \<comment> \<open>\<^verbatim>\<open>\s*```$\<close>\<close>
  "FENCE_CLOSE_RE = cat [Star ws, lit ''```'', Eol]"

definition SQL_LABEL_RE :: regex where
  \<comment> \<open>\<^verbatim>\<open>^\s*sql\s*:\s*\<close>, IGNORECASE\<close>
  "SQL_LABEL_RE = cat [Bol, Star ws, lit ''sql'', Star ws, Lit CHR '':'', Star ws]"

definition SELECT_WITH_RE :: regex where
  \<comment> \<open>\<^verbatim>\<open>^(select|with)\b\<close>, IGNORECASE\<close>
  "SELECT_WITH_RE = cat [Bol, Grp 1 (Alt (lit ''select'') (lit ''with'')), WordB]"

definition extract_sql :: "string \<Rightarrow> string" where
  "extract_sql text =
     (if text = [] then []
      else
        let t = py_strip text;
            t = re_sub True FENCE_OPEN_RE [] t;
            t = re_sub False FENCE_CLOSE_RE [] t;
            t = re_sub True SQL_LABEL_RE [] t;
            parts = map py_strip (filter (\<lambda>p. py_strip p \<noteq> []) (py_split CHR '';'' t))
        in (case parts of
              [] \<Rightarrow> []
            | p # _ \<Rightarrow>
                let sql = p @ '';''
                in if re_match True SELECT_WITH_RE (py_strip sql) = None then [] else sql))"

datatype error = ValueError string | RateLimitError | OtherError

definition disallowed :: "string list" where
  "disallowed = [''create '', ''drop '', ''alter '', ''truncate '', ''grant '', ''revoke '']"

definition reject_disallowed_sql :: "string \<Rightarrow> error + unit" where
  "reject_disallowed_sql sql =
     (let s = py_lower (py_strip sql)
      in if list_ex (startswith s) disallowed
         then Inl (ValueError ''DDL / privileged statements are not supported.'')
         else if py_in '';'' (butlast (py_strip sql))
         then Inl (ValueError ''Multi-statement SQL is not supported.'')
         else Inr ())"

text \<open>"Starts with the keyword, whatever the case of the letters."\<close>

definition starts_with_ci :: "string \<Rightarrow> string \<Rightarrow> bool" where
  "starts_with_ci s kw = prefix kw (py_lower s)"

section \<open>schema_parser.py: the schema extractor\<close>

record ForeignKey =
  column :: string
  ref_table :: string
  ref_column :: string

record TableMeta =
  name :: string
  columns :: "(string \<times> string) list"
  primary_key :: "string list"
  foreign_keys :: "ForeignKey list"

definition dq :: char where "dq = CHR 0x22"

definition quoted_or_word :: regex where
  \<comment> \<open>\<^verbatim>\<open>"[^"]+"|\w+\<close>\<close>
  "quoted_or_word = Alt (cat [Lit dq, Plus (NotIn [Ch dq]), Lit dq]) (Plus (In [Word]))"

definition dotted_name :: regex where
  \<comment> \<open>\<^verbatim>\<open>(?:"[^"]+"|\w+)(?:\.(?:"[^"]+"|\w+))?\<close>\<close>
  "dotted_name = Seq quoted_or_word (Opt (Seq (Lit CHR ''.'') quoted_or_word))"

definition not_rparen :: regex where
  \<comment> \<open>\<^verbatim>\<open>[^)]+\<close>\<close>
  "not_rparen = Plus (NotIn [Ch CHR '')''])"

definition CREATE_TABLE_RE :: regex where
  \<comment> \<open>groups: 1 = name, 2 = body; IGNORECASE and DOTALL\<close>
  "CREATE_TABLE_RE =
     cat [lit ''CREATE'', Plus ws, lit ''TABLE'', Plus ws,
          Opt (cat [lit ''IF'', Plus ws, lit ''NOT'', Plus ws, lit ''EXISTS'', Plus ws]),
          Grp 1 dotted_name, Star ws, Lit CHR ''('', Grp 2 (LazyStar AnyChar), Lit CHR '')'',
          Star ws, Lit CHR '';'']"

definition COLUMN_DEF_RE :: regex where
  \<comment> \<open>\<^verbatim>\<open>^\s*(?P<col>"[^"]+"|\w+)\s+(?P<type>[a-zA-Z][\w\s\(\),]*)\<close>; groups: 1 = col, 2 = type; IGNORECASE\<close>
  "COLUMN_DEF_RE =
     cat [Bol, Star ws, Grp 1 quoted_or_word, Plus ws,
          Grp 2 (Seq (Set (In [Rng CHR ''a'' CHR ''z'', Rng CHR ''A'' CHR ''Z'']))
                     (Star (In [Word, Space, Ch CHR ''('', Ch CHR '')'', Ch CHR '',''])))]"

definition PK_RE :: regex where
  \<comment> \<open>\<^verbatim>\<open>PRIMARY\s+KEY\s*\((?P<cols>[^)]+)\)\<close>; group 1 = cols; IGNORECASE\<close>
  "PK_RE =
     cat [lit ''PRIMARY'', Plus ws, lit ''KEY'', Star ws, Lit CHR ''('', Grp 1 not_rparen,
          Lit CHR '')'']"

definition FK_RE :: regex where
  \<comment> \<open>groups: 1 = col, 2 = ref_table, 3 = ref_col; IGNORECASE\<close>
  "FK_RE =
     cat [lit ''FOREIGN'', Plus ws, lit ''KEY'', Star ws, Lit CHR ''('', Grp 1 not_rparen,
          Lit CHR '')'', Plus ws, lit ''REFERENCES'', Plus ws, Grp 2 dotted_name, Star ws,
          Lit CHR ''('', Grp 3 not_rparen, Lit CHR '')'']"

definition TYPE_END_RE :: regex where
  \<comment> \<open>\<^verbatim>\<open>\s+(?:NOT\s+NULL|NULL|DEFAULT|PRIMARY\s+KEY|UNIQUE|REFERENCES)\b\<close>, IGNORECASE\<close>
  "TYPE_END_RE =
     cat [Plus ws,
          Alt (cat [lit ''NOT'', Plus ws, lit ''NULL''])
          (Alt (lit ''NULL'')
          (Alt (lit ''DEFAULT'')
          (Alt (cat [lit ''PRIMARY'', Plus ws, lit ''KEY''])
          (Alt (lit ''UNIQUE'') (lit ''REFERENCES''))))),
          WordB]"

definition INLINE_PK_RE :: regex where
  \<comment> \<open>\<^verbatim>\<open>\bPRIMARY\s+KEY\b\<close>, IGNORECASE\<close>
  "INLINE_PK_RE = cat [WordB, lit ''PRIMARY'', Plus ws, lit ''KEY'', WordB]"

definition INLINE_REF_RE :: regex where
  \<comment> \<open>groups: 1 = ref_table, 2 = ref_col; IGNORECASE\<close>
  "INLINE_REF_RE =
     cat [WordB, lit ''REFERENCES'', Plus ws, Grp 1 dotted_name, Star ws, Lit CHR ''('',
          Grp 2 not_rparen, Lit CHR '')'']"

definition clean_ident :: "string \<Rightarrow> string" where
  "clean_ident s0 =
     (let s = py_strip s0
      in if startswith s [dq] \<and> endswith s [dq] then butlast (tl s) else s)"

text \<open>
  The loop of \<open>_split_top_level_commas\<close>. Its state: \<open>parts\<close>, \<open>buf\<close>, \<open>depth\<close>, \<open>in_str\<close>;
  \<open>prev\<close> is \<open>body[i - 1]\<close>, absent at \<open>i = 0\<close>.
\<close>

definition split_step ::
  "char option \<Rightarrow> char \<Rightarrow> string list \<times> string \<times> int \<times> bool
   \<Rightarrow> string list \<times> string \<times> int \<times> bool" where
  "split_step prev ch st =
     (case st of (parts, buf, depth, in_str) \<Rightarrow>
        if ch = CHR 0x27 \<and> (prev = None \<or> prev \<noteq> Some (CHR 0x5C))
        then (parts, buf @ [ch], depth, \<not> in_str)
        else if \<not> in_str
        then (if ch = CHR ''('' then (parts, buf @ [ch], depth + 1, in_str)
              else if ch = CHR '')'' then (parts, buf @ [ch], max 0 (depth - 1), in_str)
              else if ch = CHR '','' \<and> depth = 0 then (parts @ [py_strip buf], [], depth, in_str)
              else (parts, buf @ [ch], depth, in_str))
        else (parts, buf @ [ch], depth, in_str))"

fun split_loop ::
  "char option \<Rightarrow> string \<Rightarrow> string list \<times> string \<times> int \<times> bool
   \<Rightarrow> string list \<times> string \<times> int \<times> bool" where
  "split_loop prev [] st = st"
| "split_loop prev (ch # body) st = split_loop (Some ch) body (split_step prev ch st)"

definition split_top_level_commas :: "string \<Rightarrow> string list" where
  "split_top_level_commas body =
     (case split_loop None body ([], [], 0, False) of
        (parts, buf, depth, in_str) \<Rightarrow>
          let tail = py_strip buf in if tail \<noteq> [] then parts @ [tail] else parts)"

definition split_first :: "string \<Rightarrow> string" where
  \<comment> \<open>the text before the first match of \<open>TYPE_END_RE\<close>: \<open>re.split(...)[0]\<close>\<close>
  "split_first s =
     (case re_search True TYPE_END_RE s of None \<Rightarrow> s | Some m \<Rightarrow> take (m_start m) s)"

definition fromkeys :: "'a list \<Rightarrow> 'a list" where
  \<comment> \<open>\<open>list(dict.fromkeys(xs))\<close>\<close>
  "fromkeys xs = dict_keys (dict_of_items (map (\<lambda>x. (x, ())) xs))"

text \<open>The loop over the items of one table body; its state: \<open>columns\<close>, \<open>primary_key\<close>, \<open>foreign_keys\<close>.\<close>

definition item_step ::
  "(string \<times> string) list \<times> string list \<times> ForeignKey list \<Rightarrow> string
   \<Rightarrow> (string \<times> string) list \<times> string list \<times> ForeignKey list" where
  "item_step st item =
     (case st of (cols, pk, fks) \<Rightarrow>
      let item_stripped = py_strip item
      in (case re_search True PK_RE item_stripped of
            Some pk_match \<Rightarrow>
              (cols,
               pk @ filter (\<lambda>c. c \<noteq> [])
                      (map clean_ident (py_split CHR '','' (group item_stripped pk_match 1))),
               fks)
          | None \<Rightarrow>
              (case re_search True FK_RE item_stripped of
                 Some fk_match \<Rightarrow>
                   (cols, pk,
                    fks @ [\<lparr>column = clean_ident (hd (py_split CHR '','' (group item_stripped fk_match 1))),
                             ref_table = clean_ident (last (py_split CHR ''.'' (group item_stripped fk_match 2))),
                             ref_column = clean_ident (hd (py_split CHR '','' (group item_stripped fk_match 3)))\<rparr>])
               | None \<Rightarrow>
                   (case re_match True COLUMN_DEF_RE item_stripped of
                      None \<Rightarrow> (cols, pk, fks)
                    | Some col_match \<Rightarrow>
                        let col = clean_ident (group item_stripped col_match 1);
                            col_type = py_strip (split_first (py_strip (group item_stripped col_match 2)));
                            cols' = dict_set cols col col_type;
                            pk' = (if re_search True INLINE_PK_RE item_stripped \<noteq> None
                                   then pk @ [col] else pk)
                        in (case re_search True INLINE_REF_RE item_stripped of
                              None \<Rightarrow> (cols', pk', fks)
                            | Some inline_ref \<Rightarrow>
                                (cols', pk',
                                 fks @ [\<lparr>column = col,
                                          ref_table = clean_ident (last (py_split CHR ''.''
                                                        (group item_stripped inline_ref 1))),
                                          ref_column = clean_ident (hd (py_split CHR '',''
                                                        (group item_stripped inline_ref 2)))\<rparr>]))))))"

definition table_step :: "string \<Rightarrow> (string \<times> TableMeta) list \<Rightarrow> match \<Rightarrow> (string \<times> TableMeta) list" where
  "table_step schema_sql tbls m =
     (let raw_name = group schema_sql m 1;
          body = group schema_sql m 2;
          nm = clean_ident (last (py_split CHR ''.'' raw_name))
      in (case foldl item_step ([], [], []) (split_top_level_commas body) of
            (cols, pk, fks) \<Rightarrow>
              dict_set tbls nm
                \<lparr>name = nm, columns = cols, primary_key = fromkeys pk, foreign_keys = fks\<rparr>))"

definition parse_schema_sql :: "string \<Rightarrow> (string \<times> TableMeta) list" where
  "parse_schema_sql schema_sql =
     foldl (table_step schema_sql) [] (finditer True CREATE_TABLE_RE schema_sql)"

text \<open>
  The dictionary \<open>to_schema_json\<close> builds:
  \<open>{"tables": {name: {"columns": {col: type}, "primary_key": [...], "foreign_keys":
  [{"column", "ref_table", "ref_column"}, ...]}}}\<close>. Each dictionary of fixed keys is a
  record (\<open>fk_column\<close> is the key \<open>"column"\<close>, \<open>t_columns\<close> the key \<open>"columns"\<close>, and so on);
  the dictionaries keyed by table and column names are association lists in insertion order.
  It is this dictionary that is written with \<open>json.dumps\<close>, read back with \<open>json.loads\<close> and
  handed to the validator.
\<close>

record fk_dict =
  fk_column :: string
  fk_ref_table :: string
  fk_ref_column :: string

record table_dict =
  t_columns :: "(string \<times> string) list"
  t_primary_key :: "string list"
  t_foreign_keys :: "fk_dict list"

record schema_json =
  tables :: "(string \<times> table_dict) list"

definition to_schema_json :: "(string \<times> TableMeta) list \<Rightarrow> schema_json" where
  "to_schema_json tbls =
     \<lparr>tables = dict_of_items (map (\<lambda>(tname, tmeta).
        (tname,
         \<lparr>t_columns = columns tmeta,
           t_primary_key = primary_key tmeta,
           t_foreign_keys =
             map (\<lambda>fk. \<lparr>fk_column = column fk, fk_ref_table = ref_table fk,
                         fk_ref_column = ref_column fk\<rparr>)
                 (foreign_keys tmeta)\<rparr>)) tbls)\<rparr>"

text \<open>
  The way back, in the words of the specification ("deserialize"): the schema model read
  from the dictionary, each table named by its key. The program has no such function; it
  keeps working on the dictionary.
\<close>

definition deserialize :: "schema_json \<Rightarrow> (string \<times> TableMeta) list" where
  "deserialize sj =
     map (\<lambda>(tname, td).
        (tname,
         \<lparr>name = tname,
           columns = t_columns td,
           primary_key = t_primary_key td,
           foreign_keys =
             map (\<lambda>d. \<lparr>column = fk_column d, ref_table = fk_ref_table d,
                        ref_column = fk_ref_column d\<rparr>)
                 (t_foreign_keys td)\<rparr>)) (tables sj)"

section \<open>validator.py: patterns and helpers\<close>

definition ident_start :: cset where
  \<comment> \<open>\<^verbatim>\<open>[A-Za-z_]\<close>\<close>
  "ident_start = In [Rng CHR ''A'' CHR ''Z'', Rng CHR ''a'' CHR ''z'', Ch CHR ''_'']"

definition ident_rest :: cset where
  \<comment> \<open>\<^verbatim>\<open>[A-Za-z0-9_]\<close>\<close>
  "ident_rest = In [Rng CHR ''A'' CHR ''Z'', Rng CHR ''a'' CHR ''z'', Rng CHR ''0'' CHR ''9'', Ch CHR ''_'']"

definition ident :: regex where
  \<comment> \<open>\<^verbatim>\<open>[A-Za-z_][A-Za-z0-9_]*\<close>\<close>
  "ident = Seq (Set ident_start) (Star ident_rest)"

definition FROM_JOIN_RE :: regex where
  \<comment> \<open>\<^verbatim>\<open>\b(from|join)\s+([A-Za-z_][A-Za-z0-9_]*)\s+(?:as\s+)?([A-Za-z_][A-Za-z0-9_]*)\b\<close>, IGNORECASE\<close>
  "FROM_JOIN_RE =
     cat [WordB, Grp 1 (Alt (lit ''from'') (lit ''join'')), Plus ws, Grp 2 ident, Plus ws,
          Opt (Seq (lit ''as'') (Plus ws)), Grp 3 ident, WordB]"

definition QUAL_COL_RE :: regex where
  \<comment> \<open>\<^verbatim>\<open>\b([A-Za-z_][A-Za-z0-9_]*)\.([A-Za-z_][A-Za-z0-9_]*)\b\<close>\<close>
  "QUAL_COL_RE = cat [WordB, Grp 1 ident, Lit CHR ''.'', Grp 2 ident, WordB]"

definition digits :: regex where
  "digits = Plus (In [Digit])"

definition QUAL_COMP_LIT_RE :: regex where
  \<comment> \<open>groups: 1 = a, 2 = c, 3 = op, 4 = lit; IGNORECASE\<close>
  "QUAL_COMP_LIT_RE =
     cat [WordB, Grp 1 ident, Lit CHR ''.'', Grp 2 ident, Star ws,
          Grp 3 (Alt (lit ''>='') (Alt (lit ''<='') (Alt (lit ''<>'') (Alt (lit ''!='')
                 (Alt (lit ''='') (Alt (lit ''>'') (lit ''<''))))))),
          Star ws,
          Grp 4 (Alt (cat [Lit (CHR 0x27), Star (NotIn [Ch (CHR 0x27)]), Lit (CHR 0x27)])
                (Alt (Seq digits (Opt (Seq (Lit CHR ''.'') digits)))
                (Alt (lit ''null'') (Alt (lit ''true'') (lit ''false''))))),
          WordB]"

definition QUAL_LIKE_RE :: regex where
  \<comment> \<open>groups: 1 = a, 2 = c, 3 = op, 4 = lit; IGNORECASE\<close>
  "QUAL_LIKE_RE =
     cat [WordB, Grp 1 ident, Lit CHR ''.'', Grp 2 ident, Plus ws,
          Grp 3 (Alt (lit ''like'') (lit ''ilike'')), Plus ws,
          Grp 4 (cat [Lit (CHR 0x27), Star (NotIn [Ch (CHR 0x27)]), Lit (CHR 0x27)])]"

definition ON_EQ_RE :: regex where
  \<comment> \<open>groups: 1 = a1, 2 = c1, 3 = a2, 4 = c2; IGNORECASE\<close>
  "ON_EQ_RE =
     cat [WordB, lit ''on'', WordB, Plus ws, Grp 1 ident, Lit CHR ''.'', Grp 2 ident,
          Star ws, Lit CHR ''='', Star ws, Grp 3 ident, Lit CHR ''.'', Grp 4 ident]"

definition IDENT_RE :: regex where
  \<comment> \<open>\<^verbatim>\<open>\b([A-Za-z_][A-Za-z0-9_]*)\b\<close>\<close>
  "IDENT_RE = cat [WordB, Grp 1 ident, WordB]"

definition STRING_LITERAL_RE :: regex where
  \<comment> \<open>\<^verbatim>\<open>'.*?(?<!\\)'\<close> with the flag S: the dot matches every character\<close>
  "STRING_LITERAL_RE = cat [Lit (CHR 0x27), LazyStar AnyChar, NotBehind (CHR 0x5C), Lit (CHR 0x27)]"

definition qualified_use_re :: "string \<Rightarrow> regex" where
  \<comment> \<open>\<^verbatim>\<open>\b[a-zA-Z_]\w*\.\<close> followed by the escaped token and \<^verbatim>\<open>\b\<close>\<close>
  "qualified_use_re tok =
     cat [WordB, Set (In [Rng CHR ''a'' CHR ''z'', Rng CHR ''A'' CHR ''Z'', Ch CHR ''_'']),
          Star (In [Word]), Lit CHR ''.'', lit tok, WordB]"

definition SQL_KEYWORDS :: "string set" where
  "SQL_KEYWORDS = set
    [''select'', ''from'', ''join'', ''inner'', ''left'', ''right'', ''full'', ''outer'', ''cross'',
     ''on'', ''where'', ''group'', ''by'', ''order'', ''having'', ''limit'', ''offset'', ''fetch'',
     ''union'', ''all'', ''distinct'', ''as'', ''and'', ''or'', ''not'', ''null'', ''is'', ''in'', ''like'',
     ''ilike'', ''between'', ''case'', ''when'', ''then'', ''else'', ''end'', ''asc'', ''desc'', ''into'',
     ''true'', ''false'']"

definition SQL_FUNCTIONS :: "string set" where
  "SQL_FUNCTIONS = set
    [''count'', ''sum'', ''avg'', ''min'', ''max'', ''coalesce'', ''now'', ''date_trunc'', ''lower'', ''upper'']"

definition strip_strings :: "string \<Rightarrow> string" where
  "strip_strings sql = re_sub False STRING_LITERAL_RE [CHR 0x27, CHR 0x27] sql"

definition build_alias_map :: "string \<Rightarrow> (string \<times> string) list" where
  "build_alias_map sql =
     foldl (\<lambda>alias_map m. dict_set alias_map (py_lower (group sql m 3)) (py_lower (group sql m 2)))
           [] (finditer True FROM_JOIN_RE sql)"

definition normalize_type :: "string \<Rightarrow> string" where
  "normalize_type db_type =
     (let t = py_lower db_type
      in if list_ex (\<lambda>x. py_in x t)
              [''int'', ''serial'', ''numeric'', ''decimal'', ''real'', ''double'', ''float'']
         then ''numeric''
         else if list_ex (\<lambda>x. py_in x t) [''text'', ''varchar'', ''char'', ''uuid'']
         then ''text''
         else if py_in ''bool'' t then ''boolean''
         else if list_ex (\<lambda>x. py_in x t) [''date'', ''time'', ''timestamp'', ''timestamptz'']
         then ''datetime''
         else ''other'')"

definition literal_type :: "string \<Rightarrow> string" where
  "literal_type lt =
     (let lit_l = py_lower lt
      in if lit_l = ''null'' then ''null''
         else if lit_l = ''true'' \<or> lit_l = ''false'' then ''boolean''
         else if startswith lt [CHR 0x27] \<and> endswith lt [CHR 0x27] then ''text''
         else ''numeric'')"

section \<open>validator.py: the join check against the foreign keys\<close>

record invalid_join =
  ij_left :: string
  ij_right :: string
  ij_reason :: string

definition fk_edges_of :: "schema_json \<Rightarrow> (string \<times> string \<times> string \<times> string) set" where
  "fk_edges_of sj =
     set (concat (map (\<lambda>(t, meta).
            map (\<lambda>fk. (py_lower t, py_lower (fk_column fk), py_lower (fk_ref_table fk),
                        py_lower (fk_ref_column fk)))
                (t_foreign_keys meta))
          (tables sj)))"

definition pk_map_of :: "schema_json \<Rightarrow> (string \<times> string set) list" where
  "pk_map_of sj =
     dict_of_items (map (\<lambda>(t, meta). (py_lower t, set (map py_lower (t_primary_key meta)))) (tables sj))"

definition dict_get_or :: "('k \<times> 'v) list \<Rightarrow> 'k \<Rightarrow> 'v \<Rightarrow> 'v" where
  \<comment> \<open>\<open>d.get(k, default)\<close>\<close>
  "dict_get_or d k dflt = (case dict_get d k of None \<Rightarrow> dflt | Some v \<Rightarrow> v)"

definition fk_join_step ::
  "string \<Rightarrow> (string \<times> string \<times> string \<times> string) set \<Rightarrow> (string \<times> string set) list
   \<Rightarrow> (string \<times> string) list \<Rightarrow> invalid_join list \<times> string list \<Rightarrow> match
   \<Rightarrow> invalid_join list \<times> string list" where
  "fk_join_step sql fk_edges pk_map alias_map acc m =
     (case acc of (invalid, warnings) \<Rightarrow>
      let a1 = py_lower (group sql m 1);
          c1 = py_lower (group sql m 2);
          a2 = py_lower (group sql m 3);
          c2 = py_lower (group sql m 4)
      in (case (dict_get alias_map a1, dict_get alias_map a2) of
            (Some ta, Some tb) \<Rightarrow>
              let t1 = py_lower ta;
                  t2 = py_lower tb;
                  direct_ok = ((t1, c1, t2, c2) \<in> fk_edges);
                  reverse_ok = ((t2, c2, t1, c1) \<in> fk_edges)
              in if direct_ok \<or> reverse_ok then (invalid, warnings)
                 else if c1 \<in> dict_get_or pk_map t1 {} \<and> c2 \<in> dict_get_or pk_map t2 {} \<and> c1 = c2
                 then (invalid,
                       warnings @ [''JOIN '' @ t1 @ ''.'' @ c1 @ '' = '' @ t2 @ ''.'' @ c2
                                   @ '' is PK=PK with no FK declared; confirm intended relationship.''])
                 else (invalid @ [\<lparr>ij_left = t1 @ ''.'' @ c1, ij_right = t2 @ ''.'' @ c2,
                                   ij_reason = ''No FK relationship found for this join condition''\<rparr>],
                       warnings)
          | _ \<Rightarrow>
              (invalid,
               warnings @ [''JOIN uses unknown alias in ON: '' @ a1 @ ''.'' @ c1 @ '' = ''
                           @ a2 @ ''.'' @ c2])))"

definition fk_join_check ::
  "string \<Rightarrow> schema_json \<Rightarrow> (string \<times> string) list \<Rightarrow> invalid_join list \<times> string list" where
  \<comment> \<open>the pair is (\<open>invalid_joins\<close>, \<open>join_warnings\<close>)\<close>
  "fk_join_check sql sj alias_map =
     foldl (fk_join_step sql (fk_edges_of sj) (pk_map_of sj) alias_map) ([], [])
           (finditer True ON_EQ_RE sql)"

section \<open>validator.py: validating a statement against the schema\<close>

record unknown_column =
  uc_table :: string
  uc_alias :: string
  uc_column :: string

record resolved_column =
  rc_column :: string
  rc_table :: string

record ambiguous_column =
  ac_column :: string
  ac_tables :: "string list"

text \<open>
  A type mismatch is a dictionary with the keys \<open>kind\<close>, \<open>expr\<close>, \<open>reason\<close> and two type
  entries, whose keys depend on the kind (\<open>column_type\<close> and \<open>literal_type\<close>, or \<open>left_type\<close>
  and \<open>right_type\<close>); the two are kept with their keys in \<open>tm_types\<close>.
\<close>

record type_mismatch =
  tm_kind :: string
  tm_expr :: string
  tm_types :: "(string \<times> string) list"
  tm_reason :: string

record validation =
  tables_detected :: "string list"
  missing_tables :: "string list"
  alias_map :: "(string \<times> string) list"
  unknown_aliases :: "string list"
  unknown_columns :: "unknown_column list"
  unqualified_columns_resolved :: "resolved_column list"
  ambiguous_unqualified_columns :: "ambiguous_column list"
  unknown_identifiers :: "string list"
  invalid_joins :: "invalid_join list"
  join_warnings :: "string list"
  type_mismatches :: "type_mismatch list"
  report_notes :: "string list"

definition cols_by_table_of :: "schema_json \<Rightarrow> (string \<times> string set) list" where
  "cols_by_table_of sj =
     dict_of_items (map (\<lambda>(t, meta). (py_lower t, set (map (\<lambda>(c, tp). py_lower c) (t_columns meta))))
                        (tables sj))"

definition type_by_table_of :: "schema_json \<Rightarrow> (string \<times> (string \<times> string) list) list" where
  "type_by_table_of sj =
     dict_of_items (map (\<lambda>(t, meta).
        (py_lower t, dict_of_items (map (\<lambda>(c, tp). (py_lower c, normalize_type tp)) (t_columns meta))))
        (tables sj))"

text \<open>
  The loop over the qualified references \<open>alias.column\<close>. Its state is the three lists it
  appends to: \<open>unknown_aliases\<close>, \<open>unknown_columns\<close>, \<open>unknown_identifiers\<close>.
\<close>

type_synonym qual_state = "string list \<times> unknown_column list \<times> string list"

definition qualified_step ::
  "(string \<times> string) list \<Rightarrow> (string \<times> string set) list \<Rightarrow> qual_state \<Rightarrow> string \<times> string
   \<Rightarrow> qual_state" where
  "qualified_step am cols_by_table st ref =
     (case st of (ualiases, ucols, uidents) \<Rightarrow>
      case ref of (a, c) \<Rightarrow>
      let a_l = py_lower a;
          c_l = py_lower c
      in (case dict_get am a_l of
            None \<Rightarrow>
              if a_l \<notin> set (dict_keys cols_by_table) \<and> a_l \<notin> set ualiases
              then (ualiases @ [a_l], ucols, uidents)
              else (ualiases, ucols, uidents)
          | Some t \<Rightarrow>
              if c_l \<notin> dict_get_or cols_by_table t {}
              then (ualiases,
                    ucols @ [\<lparr>uc_table = t, uc_alias = a_l, uc_column = c_l\<rparr>],
                    if c_l \<notin> set uidents then uidents @ [c_l]
                    else uidents)
              else (ualiases, ucols, uidents)))"

definition qualified_refs_of :: "string \<Rightarrow> (string \<times> string) list" where
  \<comment> \<open>\<open>QUAL_COL_RE.findall(sql0)\<close>: the pairs of the two groups\<close>
  "qualified_refs_of sql0 = map (\<lambda>m. (group sql0 m 1, group sql0 m 2)) (finditer False QUAL_COL_RE sql0)"

definition qualified_checks ::
  "(string \<times> string) list \<Rightarrow> (string \<times> string set) list \<Rightarrow> (string \<times> string) list \<Rightarrow> qual_state" where
  "qualified_checks am cols_by_table refs =
     foldl (qualified_step am cols_by_table) ([], [], []) refs"

definition candidates_of ::
  "string \<Rightarrow> (string \<times> string) list \<Rightarrow> (string \<times> string set) list \<Rightarrow> string list" where
  "candidates_of sql0 am cols_by_table =
     filter (\<lambda>tok_l. \<not> (tok_l \<in> SQL_KEYWORDS \<or> tok_l \<in> SQL_FUNCTIONS)
                     \<and> tok_l \<notin> set (dict_keys am)
                     \<and> tok_l \<notin> set (dict_keys cols_by_table))
            (map (\<lambda>m. py_lower (group sql0 m 1)) (finditer False IDENT_RE sql0))"

text \<open>
  The loop over the candidates. Its state: \<open>seen_unqualified\<close> (in the order of insertion),
  \<open>unqualified_columns_resolved\<close>, \<open>ambiguous_unqualified_columns\<close>.
\<close>

type_synonym unqual_state = "string list \<times> resolved_column list \<times> ambiguous_column list"

definition unqualified_step ::
  "string \<Rightarrow> (string \<times> string set) list \<Rightarrow> unqual_state \<Rightarrow> string \<Rightarrow> unqual_state" where
  "unqualified_step sql_l detected_tables_cols st tok_l =
     (case st of (seen, resolved, ambiguous) \<Rightarrow>
      if tok_l \<in> set seen then (seen, resolved, ambiguous)
      else if re_search False (qualified_use_re tok_l) sql_l \<noteq> None
      then (seen @ [tok_l], resolved, ambiguous)
      else
        let owners = map fst (filter (\<lambda>(t, cols). tok_l \<in> cols) detected_tables_cols)
        in (case owners of
              [] \<Rightarrow> (seen @ [tok_l], resolved, ambiguous)
            | [owner] \<Rightarrow>
                (seen @ [tok_l], resolved @ [\<lparr>rc_column = tok_l, rc_table = owner\<rparr>], ambiguous)
            | _ \<Rightarrow>
                (seen @ [tok_l], resolved, ambiguous @ [\<lparr>ac_column = tok_l, ac_tables = owners\<rparr>])))"

definition detected_tables_cols_of ::
  "(string \<times> string set) list \<Rightarrow> string list \<Rightarrow> (string \<times> string set) list" where
  \<comment> \<open>\<open>[(t, cols_by_table.get(t, set())) for t in tables_detected if t in cols_by_table]\<close>\<close>
  "detected_tables_cols_of cols_by_table detected =
     map (\<lambda>t. (t, dict_get_or cols_by_table t {}))
         (filter (\<lambda>t. t \<in> set (dict_keys cols_by_table)) detected)"

definition unqualified_checks ::
  "string \<Rightarrow> (string \<times> string set) list \<Rightarrow> string list \<Rightarrow> unqual_state" where
  "unqualified_checks sql_l detected_tables_cols candidates =
     foldl (unqualified_step sql_l detected_tables_cols) ([], [], []) candidates"

definition unknown_identifier_step ::
  "resolved_column list \<Rightarrow> ambiguous_column list \<Rightarrow> string list \<Rightarrow> string \<Rightarrow> string list" where
  "unknown_identifier_step resolved ambiguous uidents tok_l =
     (if tok_l \<in> set (map rc_column resolved) \<or> tok_l \<in> set (map ac_column ambiguous)
      then uidents
      else if tok_l \<notin> set uidents then uidents @ [tok_l]
      else uidents)"

definition col_type ::
  "(string \<times> string) list \<Rightarrow> (string \<times> (string \<times> string) list) list \<Rightarrow> string \<Rightarrow> string
   \<Rightarrow> string option" where
  "col_type am type_by_table alias col =
     (let a = py_lower alias;
          c = py_lower col
      in (case dict_get am a of
            None \<Rightarrow> None
          | Some t \<Rightarrow> dict_get (dict_get_or type_by_table t []) c))"

definition comparison_step ::
  "string \<Rightarrow> (string \<times> string) list \<Rightarrow> (string \<times> (string \<times> string) list) list
   \<Rightarrow> type_mismatch list \<Rightarrow> match \<Rightarrow> type_mismatch list" where
  "comparison_step sql0 am type_by_table tms m =
     (let a = group sql0 m 1;
          c = group sql0 m 2;
          op = py_lower (group sql0 m 3);
          lt = group sql0 m 4
      in (case col_type am type_by_table a c of
            None \<Rightarrow> tms
          | Some ct \<Rightarrow>
              let ltp = literal_type lt
              in if ltp = ''null'' then tms
                 else if op \<in> set [''>'', ''<'', ''>='', ''<='']
                 then (if ct \<noteq> ''numeric''
                       then tms @
                            [\<lparr>tm_kind = ''comparison'',
                              tm_expr = a @ ''.'' @ c @ '' '' @ op @ '' '' @ lt,
                              tm_types = [(''column_type'', ct), (''literal_type'', ltp)],
                              tm_reason = ''Non-numeric column used with numeric comparison operator''\<rparr>]
                       else tms)
                 else if op \<in> set [''='', ''!='', ''<>'']
                         \<and> ct \<in> set [''numeric'', ''text'', ''boolean'']
                         \<and> ltp \<in> set [''numeric'', ''text'', ''boolean'']
                         \<and> ct \<noteq> ltp
                 then tms @
                      [\<lparr>tm_kind = ''equality'',
                        tm_expr = a @ ''.'' @ c @ '' '' @ op @ '' '' @ lt,
                        tm_types = [(''column_type'', ct), (''literal_type'', ltp)],
                        tm_reason = ''Column type does not match literal type''\<rparr>]
                 else tms))"

definition like_step ::
  "string \<Rightarrow> (string \<times> string) list \<Rightarrow> (string \<times> (string \<times> string) list) list
   \<Rightarrow> type_mismatch list \<Rightarrow> match \<Rightarrow> type_mismatch list" where
  "like_step sql0 am type_by_table tms m =
     (let a = group sql0 m 1;
          c = group sql0 m 2;
          op = py_lower (group sql0 m 3);
          lt = group sql0 m 4
      in (case col_type am type_by_table a c of
            None \<Rightarrow> tms
          | Some ct \<Rightarrow>
              if ct \<noteq> ''text''
              then tms @
                   [\<lparr>tm_kind = ''like'',
                     tm_expr = a @ ''.'' @ c @ '' '' @ op @ '' '' @ lt,
                     tm_types = [(''column_type'', ct), (''literal_type'', ''text'')],
                     tm_reason = ''LIKE/ILIKE used on non-text column''\<rparr>]
              else tms))"

definition join_type_step ::
  "string \<Rightarrow> (string \<times> string) list \<Rightarrow> (string \<times> (string \<times> string) list) list
   \<Rightarrow> type_mismatch list \<Rightarrow> match \<Rightarrow> type_mismatch list" where
  "join_type_step sql0 am type_by_table tms m =
     (let a1 = group sql0 m 1;
          c1 = group sql0 m 2;
          a2 = group sql0 m 3;
          c2 = group sql0 m 4
      in (case (col_type am type_by_table a1 c1, col_type am type_by_table a2 c2) of
            (Some t1, Some t2) \<Rightarrow>
              if t1 \<noteq> t2 \<and> t1 \<noteq> ''other'' \<and> t2 \<noteq> ''other''
              then tms @
                   [\<lparr>tm_kind = ''join'',
                     tm_expr = a1 @ ''.'' @ c1 @ '' = '' @ a2 @ ''.'' @ c2,
                     tm_types = [(''left_type'', t1), (''right_type'', t2)],
                     tm_reason = ''Join compares different column types''\<rparr>]
              else tms
          | _ \<Rightarrow> tms))"

definition type_checks ::
  "string \<Rightarrow> (string \<times> string) list \<Rightarrow> (string \<times> (string \<times> string) list) list
   \<Rightarrow> type_mismatch list" where
  "type_checks sql0 am type_by_table =
     (let tm = foldl (comparison_step sql0 am type_by_table) []
                     (finditer True QUAL_COMP_LIT_RE sql0);
          tm = foldl (like_step sql0 am type_by_table) tm (finditer True QUAL_LIKE_RE sql0);
          tm = foldl (join_type_step sql0 am type_by_table) tm (finditer True ON_EQ_RE sql0)
      in tm)"

definition notes_of ::
  "string list \<Rightarrow> unknown_column list \<Rightarrow> string list \<Rightarrow> ambiguous_column list
   \<Rightarrow> invalid_join list \<Rightarrow> type_mismatch list \<Rightarrow> string list" where
  "notes_of missing ucols ualiases ambiguous invalid tms =
     (if missing \<noteq> [] then [''One or more referenced tables are missing from the schema.''] else [])
     @ (if ucols \<noteq> []
        then [''One or more qualified columns (alias.column) do not exist in the referenced table.'']
        else [])
     @ (if ualiases \<noteq> []
        then [''One or more aliases referenced in SQL were not defined in FROM/JOIN.''] else [])
     @ (if ambiguous \<noteq> []
        then [''Some unqualified column names are ambiguous; prefer alias.column.''] else [])
     @ (if invalid \<noteq> []
        then [''One or more JOIN conditions do not match any FK relationship.''] else [])
     @ (if tms \<noteq> []
        then [''One or more comparisons/joins appear to use incompatible data types.''] else [])"

text \<open>
  \<open>seen_unqualified\<close> is a Python set, and the last loop of the identifier resolution runs
  over it in the set's own order, which the text and the schema do not fix; here it runs in
  the order of insertion. The order of \<open>unknown_identifiers\<close> is therefore not meaningful
  beyond the entries of the qualified loop; its members are.
\<close>

definition validate_against_schema :: "string \<Rightarrow> schema_json \<Rightarrow> validation" where
  "validate_against_schema sql sj =
     (let sql0 = strip_strings sql;
          sql_l = py_lower sql0;
          am = build_alias_map sql0;
          detected = sort (remdups (map snd am));
          missing = filter (\<lambda>t. t \<notin> set (map (\<lambda>(x, meta). py_lower x) (tables sj))) detected;
          cols_by_table = cols_by_table_of sj;
          type_by_table = type_by_table_of sj;
          qs = qualified_checks am cols_by_table (qualified_refs_of sql0);
          candidates = candidates_of sql0 am cols_by_table;
          detected_tables_cols = detected_tables_cols_of cols_by_table detected;
          us = unqualified_checks sql_l detected_tables_cols candidates;
          seen_unqualified = fst us;
          resolved = fst (snd us);
          ambiguous = snd (snd us);
          unknown_ids = foldl (unknown_identifier_step resolved ambiguous) (snd (snd qs))
                              seen_unqualified;
          tms = type_checks sql0 am type_by_table;
          fk = fk_join_check sql0 sj am
      in \<lparr>tables_detected = detected,
          missing_tables = missing,
          alias_map = am,
          unknown_aliases = fst qs,
          unknown_columns = fst (snd qs),
          unqualified_columns_resolved = resolved,
          ambiguous_unqualified_columns = ambiguous,
          unknown_identifiers = unknown_ids,
          invalid_joins = fst fk,
          join_warnings = snd fk,
          type_mismatches = take 50 tms,
          report_notes = notes_of missing (fst (snd qs)) (fst qs) ambiguous (fst fk) tms\<rparr>)"

section \<open>validator.py: classifying the report\<close>

text \<open>The key \<open>class\<close> of the classification is the field \<open>issue_class\<close>; the key \<open>notes\<close> of the report is the field \<open>report_notes\<close>.\<close>

record classification =
  issue_class :: string
  reason :: string
  action :: string

definition classify_issue :: "validation \<Rightarrow> string \<Rightarrow> schema_json \<Rightarrow> classification" where
  "classify_issue v question sj =
     (let hard_signals =
            (missing_tables v \<noteq> [] \<or> unknown_columns v \<noteq> [] \<or> unknown_aliases v \<noteq> []
             \<or> invalid_joins v \<noteq> [] \<or> type_mismatches v \<noteq> [])
      in if \<not> hard_signals
         then \<lparr>issue_class = ''ok'', reason = ''No major validation issues detected.'',
               action = ''stop''\<rparr>
         else
           let q = py_lower question
           in if missing_tables v \<noteq> []
              then \<lparr>issue_class = ''schema_issue'',
                    reason = ''SQL references table(s) not present in the uploaded schema.'',
                    action = ''stop''\<rparr>
              else if unknown_columns v \<noteq> []
              then (let unknown_cols = map uc_column (unknown_columns v);
                        unknown_cols = map py_lower (filter (\<lambda>x. x \<noteq> []) unknown_cols)
                    in if list_ex (\<lambda>uc. py_in uc q) unknown_cols
                       then \<lparr>issue_class = ''schema_issue'',
                             reason = ''Requested column(s) appear not to exist in the schema.'',
                             action = ''stop''\<rparr>
                       else \<lparr>issue_class = ''ai_issue'',
                             reason = ''AI produced column names that do not exist in the schema.'',
                             action = ''retry_ai''\<rparr>)
              else if invalid_joins v \<noteq> []
              then \<lparr>issue_class = ''ai_issue'',
                    reason = ''SQL join condition does not match any foreign key relationship.'',
                    action = ''retry_ai''\<rparr>
              else if type_mismatches v \<noteq> []
              then \<lparr>issue_class = ''ai_issue'',
                    reason = ''SQL compares incompatible data types (e.g., TEXT vs numeric).'',
                    action = ''retry_ai''\<rparr>
              else if unknown_aliases v \<noteq> []
              then \<lparr>issue_class = ''ai_issue'',
                    reason = ''SQL references aliases that were never defined in FROM/JOIN.'',
                    action = ''retry_ai''\<rparr>
              else if ambiguous_unqualified_columns v \<noteq> []
              then \<lparr>issue_class = ''user_issue'',
                    reason = ''Request leads to ambiguous columns; specify which table/field you mean.'',
                    action = ''ask_user''\<rparr>
              else \<lparr>issue_class = ''ai_issue'', reason = ''Validation failed in an unexpected way.'',
                    action = ''retry_ai''\<rparr>)"

section \<open>app.py: generation with the repair loop\<close>

text \<open>
  The text generator is outside the program. What \<open>call_openai_with_retry\<close> hands back
  is a reply: the content of the first choice, or \<open>RateLimitError\<close> once the retries are
  used up, or some other exception. A capability gives the reply to the generation call
  and to each repair call; a repair reply may depend on everything the call is given and
  on the number of repair calls made before it in the same request.
\<close>

datatype ai_reply = Content string | RateLimited | Failure

record capability =
  generate_reply :: "schema_json \<Rightarrow> string \<Rightarrow> ai_reply"
  repair_reply :: "nat \<Rightarrow> schema_json \<Rightarrow> string \<Rightarrow> string \<Rightarrow> validation \<Rightarrow> ai_reply"

definition sql_of_reply :: "string \<Rightarrow> ai_reply \<Rightarrow> error + string" where
  \<comment> \<open>the common tail of \<open>ai_generate_sql\<close> and \<open>ai_fix_sql\<close>; \<open>msg\<close> is the text of the \<open>ValueError\<close>\<close>
  "sql_of_reply msg reply =
     (case reply of
        RateLimited \<Rightarrow> Inl RateLimitError
      | Failure \<Rightarrow> Inl OtherError
      | Content raw \<Rightarrow>
          let sql = extract_sql raw
          in if sql = [] then Inl (ValueError msg)
             else (case reject_disallowed_sql sql of Inl e \<Rightarrow> Inl e | Inr u \<Rightarrow> Inr sql))"

definition ai_generate_sql :: "capability \<Rightarrow> schema_json \<Rightarrow> string \<Rightarrow> error + string" where
  "ai_generate_sql cap sj question =
     sql_of_reply ''Model did not return valid SQL.'' (generate_reply cap sj question)"

definition ai_fix_sql ::
  "capability \<Rightarrow> nat \<Rightarrow> schema_json \<Rightarrow> string \<Rightarrow> string \<Rightarrow> validation \<Rightarrow> error + string" where
  "ai_fix_sql cap calls sj question bad_sql v =
     sql_of_reply ''Model did not return SQL in fix step.'' (repair_reply cap calls sj question bad_sql v)"

fun join_with :: "string \<Rightarrow> string list \<Rightarrow> string" where
  "join_with sep [] = []"
| "join_with sep [x] = x"
| "join_with sep (x # y # xs) = x @ sep @ join_with sep (y # xs)"

definition smart_sql_generator :: "schema_json \<Rightarrow> string \<Rightarrow> string" where
  "smart_sql_generator sj question =
     (let q = py_lower question;
          tbls = tables sj
      in if tbls = [] then ''-- No tables parsed.''
         else
           (case (if py_in ''employee'' q \<and> py_in ''branch'' q
                  then (case (dict_get tbls ''employees'', dict_get tbls ''branches'') of
                          (Some emp, Some br) \<Rightarrow> Some (emp, br)
                        | _ \<Rightarrow> None)
                  else None) of
              Some (emp, br) \<Rightarrow>
                let emp_cols = dict_keys (t_columns emp);
                    br_cols = dict_keys (t_columns br);
                    emp_select = map (\<lambda>c. ''e.'' @ c)
                                     (filter (\<lambda>c. c \<in> set emp_cols)
                                             [''emp_id'', ''first_name'', ''last_name'']);
                    emp_select = (if emp_select = [] then [''e.*''] else emp_select);
                    select_parts = (if ''branch_name'' \<in> set br_cols
                                    then emp_select @ [''b.branch_name AS branch_name'']
                                    else emp_select)
                in ''SELECT '' @ join_with '', '' select_parts @ [CHR 0x0A]
                   @ ''FROM employees e'' @ [CHR 0x0A]
                   @ ''JOIN branches b ON b.branch_id = e.branch_id'' @ [CHR 0x0A]
                   @ ''LIMIT 50;''
            | None \<Rightarrow>
                (case tbls of
                   [] \<Rightarrow> ''-- No tables parsed.''
                 | (first_table, meta) # rest \<Rightarrow>
                     let cols = dict_keys (t_columns meta);
                         col_list = (if cols \<noteq> [] then join_with '', '' (take 5 cols) else ''*'')
                     in ''SELECT '' @ col_list @ '' FROM '' @ first_table @ '' LIMIT 50;'')))"

text \<open>
  The state of the repair loop of \<open>generate\<close>: the current statement, its report and its
  classification (\<open>issue_class\<close> of the loop is the class of the classification).
\<close>

record candidate =
  c_sql :: string
  c_validation :: validation
  c_classification :: classification

definition needs_fix :: "validation \<Rightarrow> bool" where
  "needs_fix v =
     (missing_tables v \<noteq> [] \<or> unknown_columns v \<noteq> [] \<or> unknown_aliases v \<noteq> []
      \<or> unknown_identifiers v \<noteq> [] \<or> invalid_joins v \<noteq> [] \<or> type_mismatches v \<noteq> [])"

definition assess :: "schema_json \<Rightarrow> string \<Rightarrow> string \<Rightarrow> candidate" where
  \<comment> \<open>validate, then classify\<close>
  "assess sj q sql =
     (let v = validate_against_schema sql sj
      in \<lparr>c_sql = sql, c_validation = v, c_classification = classify_issue v q sj\<rparr>)"

text \<open>
  \<open>for _ in range(2)\<close>: the first argument counts the rounds that are left, the second
  the calls of \<open>ai_fix_sql\<close> made so far. The result carries that count next to the state
  the loop ends with, or next to the exception \<open>ai_fix_sql\<close> raised, which \<open>generate\<close>
  does not catch.
\<close>

fun repair_loop ::
  "nat \<Rightarrow> nat \<Rightarrow> capability \<Rightarrow> schema_json \<Rightarrow> string \<Rightarrow> candidate \<Rightarrow> nat \<times> (error + candidate)" where
  "repair_loop 0 calls cap sj q st = (calls, Inr st)"
| "repair_loop (Suc n) calls cap sj q st =
     (if issue_class (c_classification st) \<noteq> ''ai_issue'' then (calls, Inr st)
      else if \<not> needs_fix (c_validation st) then (calls, Inr st)
      else (case ai_fix_sql cap calls sj q (c_sql st) (c_validation st) of
              Inl e \<Rightarrow> (Suc calls, Inl e)
            | Inr sql \<Rightarrow> repair_loop n (Suc calls) cap sj q (assess sj q sql)))"

text \<open>
  What \<open>generate\<close> answers once the schema is found and the question accepted: the
  response with status \<open>ok\<close>, the one built from the fallback generator, the one with
  status \<open>error\<close>, or an exception that leaves the handler. The message, the request
  identifier and the usage counters of the response are left out.
\<close>

datatype outcome =
    Ok_response candidate
  | Fallback_response candidate
  | Error_response
  | Raised error

definition generate :: "capability \<Rightarrow> schema_json \<Rightarrow> string \<Rightarrow> nat \<times> outcome" where
  \<comment> \<open>the first component is the number of calls of \<open>ai_fix_sql\<close>\<close>
  "generate cap sj q =
     (case ai_generate_sql cap sj q of
        Inl RateLimitError \<Rightarrow> (0, Fallback_response (assess sj q (smart_sql_generator sj q)))
      | Inl e \<Rightarrow> (0, Error_response)
      | Inr sql \<Rightarrow>
          (case repair_loop 2 0 cap sj q (assess sj q sql) of
             (calls, Inl e) \<Rightarrow> (calls, Raised e)
           | (calls, Inr st) \<Rightarrow> (calls, Ok_response st)))"

section \<open>Notions used in the statements\<close>

text \<open>
  A qualifier that no FROM or JOIN binds and that is, when the case of the letters is
  ignored, the name of a table of the schema.
\<close>

definition names_unbound_table :: "(string \<times> string) list \<Rightarrow> schema_json \<Rightarrow> string \<Rightarrow> bool" where
  "names_unbound_table am sj a =
     (dict_get am (py_lower a) = None \<and> (\<exists>t\<in>set (dict_keys (tables sj)). py_lower a = py_lower t))"

text \<open>
  What the resolution of an unqualified \<open>name\<close> needs of a schema with the tables \<open>a\<close> and
  \<open>b\<close>: they are its tables, and both have a column \<open>name\<close>.
\<close>

definition two_tables_with_name :: "(string \<times> string set) list \<Rightarrow> bool" where
  "two_tables_with_name cbt =
     (set (dict_keys cbt) = {''a'', ''b''}
      \<and> ''name'' \<in> dict_get_or cbt ''a'' {} \<and> ''name'' \<in> dict_get_or cbt ''b'' {})"

text \<open>A schema model whose keys are distinct and name their tables.\<close>

definition well_keyed :: "(string \<times> TableMeta) list \<Rightarrow> bool" where
  "well_keyed tbls = (distinct (map fst tbls) \<and> (\<forall>(k, m)\<in>set tbls. name m = k))"

section \<open>The inputs of the examples\<close>

definition schema_ab :: schema_json where
  \<comment> \<open>two tables \<open>a\<close> and \<open>b\<close>, each with the one column \<open>name\<close>\<close>
  "schema_ab =
     \<lparr>tables = [(''a'', \<lparr>t_columns = [(''name'', ''TEXT'')], t_primary_key = [], t_foreign_keys = []\<rparr>),
                 (''b'', \<lparr>t_columns = [(''name'', ''TEXT'')], t_primary_key = [], t_foreign_keys = []\<rparr>)]\<rparr>"

definition employees_ddl :: string where
  "employees_ddl = ''CREATE TABLE employees (emp_id INT PRIMARY KEY, branch_id INT REFERENCES branches(branch_id)); CREATE TABLE branches (branch_id INT PRIMARY KEY, branch_name TEXT);''"

definition employees_schema :: schema_json where
  \<comment> \<open>what \<open>to_schema_json\<close> makes of the tables parsed from \<open>employees_ddl\<close>\<close>
  "employees_schema =
     \<lparr>tables =
        [(''employees'',
          \<lparr>t_columns = [(''emp_id'', ''INT''), (''branch_id'', ''INT'')],
            t_primary_key = [''emp_id''],
            t_foreign_keys = [\<lparr>fk_column = ''branch_id'', fk_ref_table = ''branches'',
                               fk_ref_column = ''branch_id''\<rparr>]\<rparr>),
         (''branches'',
          \<lparr>t_columns = [(''branch_id'', ''INT''), (''branch_name'', ''TEXT'')],
            t_primary_key = [''branch_id''], t_foreign_keys = []\<rparr>)]\<rparr>"

definition bad_join_sql :: string where
  "bad_join_sql = ''SELECT e.emp_id FROM employees e JOIN branches b ON e.emp_id = b.branch_name;''"

definition stubborn :: capability where
  \<comment> \<open>a generator that answers every call with the same statement\<close>
  "stubborn = \<lparr>generate_reply = (\<lambda>sj q. Content bad_join_sql),
               repair_reply = (\<lambda>n sj q bad v. Content bad_join_sql)\<rparr>"

section \<open>Properties of the surface extractor\<close>

lemma py_split_no_sep: "p \<in> set (py_split sep s) \<Longrightarrow> sep \<notin> set p"
proof (induction s arbitrary: p)
  case Nil
  then show ?case by simp
next
  case (Cons c cs)
  show ?case
  proof (cases "c = sep")
    case True
    with Cons show ?thesis by auto
  next
    case False
    with Cons show ?thesis by (cases "py_split sep cs") auto
  qed
qed

lemma py_strip_subset: "set (py_strip s) \<subseteq> set s"
proof -
  have "set (py_strip s) \<subseteq> set (rev (dropWhile py_isspace s))"
    unfolding py_strip_def using set_dropWhileD by fastforce
  also have "\<dots> \<subseteq> set s" using set_dropWhileD by fastforce
  finally show ?thesis .
qed

lemma dropWhile_fixed: "xs \<noteq> [] \<Longrightarrow> \<not> P (hd xs) \<Longrightarrow> dropWhile P xs = xs"
  by (cases xs) auto

lemma hd_rev_dropWhile:
  assumes "dropWhile P (rev xs) \<noteq> []"
  shows "hd (rev (dropWhile P (rev xs))) = hd xs"
proof -
  have "xs = rev (dropWhile P (rev xs)) @ rev (takeWhile P (rev xs))"
    by (metis rev_append rev_rev_ident takeWhile_dropWhile_id)
  then show ?thesis using assms by (metis hd_append2 rev_is_Nil_conv)
qed

lemma py_strip_hd: "py_strip s \<noteq> [] \<Longrightarrow> \<not> py_isspace (hd (py_strip s))"
proof -
  assume ne: "py_strip s \<noteq> []"
  let ?a = "dropWhile py_isspace s"
  let ?b = "dropWhile py_isspace (rev ?a)"
  have b: "?b \<noteq> []" using ne unfolding py_strip_def by (metis rev_is_Nil_conv)
  have a: "?a \<noteq> []"
  proof
    assume "?a = []"
    then have "?b = []" by (metis dropWhile.simps(1) rev.simps(1))
    with b show False by blast
  qed
  have ha: "\<not> py_isspace (hd ?a)" using a hd_dropWhile by blast
  have "hd (py_strip s) = hd ?a" unfolding py_strip_def using b by (rule hd_rev_dropWhile)
  then show ?thesis using ha by metis
qed

lemma py_strip_last: "py_strip s \<noteq> [] \<Longrightarrow> \<not> py_isspace (last (py_strip s))"
proof -
  assume ne: "py_strip s \<noteq> []"
  let ?b = "dropWhile py_isspace (rev (dropWhile py_isspace s))"
  have b: "?b \<noteq> []" using ne by (simp add: py_strip_def)
  have "\<not> py_isspace (hd ?b)" using b hd_dropWhile by blast
  then show ?thesis using b by (simp add: py_strip_def last_rev)
qed

lemma py_strip_fixed:
  assumes "s \<noteq> []" "\<not> py_isspace (hd s)" "\<not> py_isspace (last s)"
  shows "py_strip s = s"
proof -
  have 1: "dropWhile py_isspace s = s" using assms dropWhile_fixed by blast
  have "rev s \<noteq> []" "\<not> py_isspace (hd (rev s))" using assms by (simp_all add: hd_rev)
  then have 2: "dropWhile py_isspace (rev s) = rev s" using dropWhile_fixed by blast
  show ?thesis by (simp add: py_strip_def 1 2)
qed

lemma semicolon_not_space: "\<not> py_isspace CHR '';''"
  by code_simp

lemma py_strip_terminated:
  assumes "py_strip q \<noteq> []"
  shows "py_strip (py_strip q @ '';'') = py_strip q @ '';''"
proof (rule py_strip_fixed)
  show "py_strip q @ '';'' \<noteq> []" by simp
  show "\<not> py_isspace (hd (py_strip q @ '';''))" using assms py_strip_hd by simp
  show "\<not> py_isspace (last (py_strip q @ '';''))" using semicolon_not_space by simp
qed


lemma rmatch_lit_ic:
  "rmatch True (lit w) (prev, s, pos, caps) \<noteq> [] \<Longrightarrow> prefix (py_lower w) (py_lower s)"
proof (induction w arbitrary: prev s pos caps)
  case Nil
  then show ?case by (simp add: py_lower_def)
next
  case (Cons a w)
  have unf: "lit (a # w) = Seq (Lit a) (lit w)" by (simp add: lit_def cat_def)
  show ?case
  proof (cases s)
    case Nil
    with Cons.prems show ?thesis by (simp add: unf)
  next
    case (Cons c rest)
    show ?thesis
    proof (cases "py_lower_char c = py_lower_char a")
      case True
      with Cons.prems Cons have "rmatch True (lit w) (Some c, rest, Suc pos, caps) \<noteq> []"
        by (simp add: unf)
      then have "prefix (py_lower w) (py_lower rest)" by (rule Cons.IH)
      with True Cons show ?thesis by (simp add: py_lower_def)
    next
      case False
      with Cons.prems Cons show ?thesis by (simp add: unf)
    qed
  qed
qed

lemma lower_select: "py_lower ''select'' = ''select''" by code_simp
lemma lower_with: "py_lower ''with'' = ''with''" by code_simp

lemma select_with_prefix:
  assumes "re_match True SELECT_WITH_RE s \<noteq> None"
  shows "starts_with_ci s ''select'' \<or> starts_with_ci s ''with''"
proof -
  let ?st = "(None, s, 0, []) :: mstate"
  have "rmatch True SELECT_WITH_RE ?st \<noteq> []"
    using assms by (auto simp: re_match_def split: list.splits)
  then have "rmatch True (Alt (lit ''select'') (lit ''with'')) ?st \<noteq> []"
    by (auto simp: SELECT_WITH_RE_def cat_def)
  then have "rmatch True (lit ''select'') ?st \<noteq> [] \<or> rmatch True (lit ''with'') ?st \<noteq> []"
    by simp
  then show ?thesis
    using rmatch_lit_ic [of "''select''" None s 0 "[]"] rmatch_lit_ic [of "''with''" None s 0 "[]"]
    unfolding starts_with_ci_def lower_select lower_with by blast
qed

lemma map_filter_hd:
  "map f (filter P xs) = y # ys \<Longrightarrow> \<exists>x\<in>set xs. P x \<and> y = f x"
proof -
  assume "map f (filter P xs) = y # ys"
  then have "y \<in> set (map f (filter P xs))" by simp
  then show ?thesis by auto
qed

lemma extract_sql_shape:
  assumes "extract_sql t \<noteq> []"
  shows "\<exists>p. extract_sql t = p @ '';'' \<and> p \<noteq> [] \<and> CHR '';'' \<notin> set p
            \<and> py_strip (p @ '';'') = p @ '';''
            \<and> re_match True SELECT_WITH_RE (p @ '';'') \<noteq> None"
proof -
  define t' where "t' = re_sub True SQL_LABEL_RE [] (re_sub False FENCE_CLOSE_RE []
                          (re_sub True FENCE_OPEN_RE [] (py_strip t)))"
  define parts where "parts = map py_strip (filter (\<lambda>p. py_strip p \<noteq> []) (py_split CHR '';'' t'))"
  have ex: "extract_sql t = (case parts of [] \<Rightarrow> []
              | p # _ \<Rightarrow> if re_match True SELECT_WITH_RE (py_strip (p @ '';'')) = None then [] else p @ '';'')"
    using assms by (cases "t = []") (auto simp: extract_sql_def Let_def parts_def t'_def split: list.splits)
  with assms obtain p ps where pp: "parts = p # ps" by (cases parts) auto
  then have "\<exists>q\<in>set (py_split CHR '';'' t'). py_strip q \<noteq> [] \<and> p = py_strip q"
    unfolding parts_def by (rule map_filter_hd)
  then obtain q where q: "q \<in> set (py_split CHR '';'' t')" "py_strip q \<noteq> []" "p = py_strip q"
    by blast
  have stripped: "py_strip (p @ '';'') = p @ '';''" using q py_strip_terminated by simp
  have nosemi: "CHR '';'' \<notin> set p" using q py_split_no_sep py_strip_subset by fastforce
  have m: "re_match True SELECT_WITH_RE (p @ '';'') \<noteq> None" "extract_sql t = p @ '';''"
    using ex assms pp stripped by (auto split: if_splits)
  show ?thesis using m stripped nosemi q by blast
qed



lemma py_in_single: "py_in [c] s = (c \<in> set s)"
  by (induction s) auto

lemma not_disallowed:
  assumes "prefix ''select'' s \<or> prefix ''with'' s"
  shows "\<not> list_ex (startswith s) disallowed"
proof -
  from assms obtain r where "s = CHR ''s'' # r \<or> s = CHR ''w'' # r"
    by (auto simp: prefix_def)
  then show ?thesis by (auto simp: disallowed_def startswith_def)
qed

text \<open>
  Claim C9. Whenever \<open>extract_sql\<close> returns a statement, \<open>reject_disallowed_sql\<close>
  accepts it: neither of its two errors is raised on the output of the extractor.
\<close>

theorem extract_sql_passes_policy_gate:
  assumes "extract_sql t \<noteq> []"
  shows "reject_disallowed_sql (extract_sql t) = Inr ()"
proof -
  obtain p where p: "extract_sql t = p @ '';''" "CHR '';'' \<notin> set p"
      "py_strip (p @ '';'') = p @ '';''" "re_match True SELECT_WITH_RE (p @ '';'') \<noteq> None"
    using assms extract_sql_shape by blast
  have "prefix ''select'' (py_lower (p @ '';'')) \<or> prefix ''with'' (py_lower (p @ '';''))"
    using select_with_prefix [OF p(4)] by (simp add: starts_with_ci_def)
  then have a: "\<not> list_ex (startswith (py_lower (p @ '';''))) disallowed" by (rule not_disallowed)
  have b: "\<not> py_in '';'' (butlast (p @ '';''))" using p(2) by (simp add: py_in_single butlast_append)
  show ?thesis unfolding p(1) reject_disallowed_sql_def Let_def p(3) using a b by simp
qed

theorem extract_sql_passes_policy_gate_witness:
  "extract_sql ''SELECT a FROM t; DROP TABLE t;'' \<noteq> []
   \<and> reject_disallowed_sql (extract_sql ''SELECT a FROM t; DROP TABLE t;'') = Inr ()"
proof -
  have e: "extract_sql ''SELECT a FROM t; DROP TABLE t;'' \<noteq> []" by code_simp
  show ?thesis using e extract_sql_passes_policy_gate [OF e] by simp
qed

section \<open>Dictionaries and the fields of the report\<close>

lemma dict_set_keys: "fst ` set (dict_set d k v) = insert k (fst ` set d)"
proof (induction d)
  case Nil
  then show ?case by simp
next
  case (Cons p d)
  obtain k' v' where p: "p = (k', v')" by (cases p)
  show ?case
  proof (cases "k' = k")
    case True
    then show ?thesis by (simp add: p)
  next
    case False
    then show ?thesis using Cons.IH by (simp add: p insert_commute)
  qed
qed

lemma dict_set_new: "k \<notin> fst ` set d \<Longrightarrow> dict_set d k v = d @ [(k, v)]"
  by (induction d) auto

lemma dict_set_distinct: "distinct (map fst d) \<Longrightarrow> distinct (map fst (dict_set d k v))"
proof (induction d)
  case Nil
  then show ?case by simp
next
  case (Cons p d)
  obtain k' v' where p: "p = (k', v')" by (cases p)
  show ?case
  proof (cases "k' = k")
    case True
    then show ?thesis using Cons.prems by (simp add: p)
  next
    case False
    have "k' \<notin> fst ` set (dict_set d k v)"
      using Cons.prems False by (simp add: p dict_set_keys)
    then show ?thesis using Cons False by (simp add: p)
  qed
qed

lemma dict_set_values:
  assumes "\<forall>(k', m)\<in>set d. Q k' m" and "Q k v"
  shows "\<forall>(k', m)\<in>set (dict_set d k v). Q k' m"
  using assms by (induction d) (auto split: if_splits)

lemma dict_of_items_distinct_aux:
  "distinct (map fst (acc @ kvs)) \<Longrightarrow> foldl (\<lambda>d (k, v). dict_set d k v) acc kvs = acc @ kvs"
proof (induction kvs arbitrary: acc)
  case Nil
  then show ?case by simp
next
  case (Cons p kvs)
  obtain k v where p: "p = (k, v)" by (cases p)
  have new: "k \<notin> fst ` set acc" using Cons.prems by (auto simp: p)
  have d: "distinct (map fst ((acc @ [(k, v)]) @ kvs))" using Cons.prems by (simp add: p)
  have "foldl (\<lambda>d (k, v). dict_set d k v) (acc @ [(k, v)]) kvs = (acc @ [(k, v)]) @ kvs"
    using d by (rule Cons.IH)
  then show ?case by (simp add: p dict_set_new [OF new])
qed

lemma dict_of_items_distinct: "distinct (map fst kvs) \<Longrightarrow> dict_of_items kvs = kvs"
  using dict_of_items_distinct_aux [of "[]" kvs] by (simp add: dict_of_items_def)

lemma dict_of_items_keys_aux:
  "fst ` set (foldl (\<lambda>d (k, v). dict_set d k v) acc kvs) = fst ` set acc \<union> fst ` set kvs"
proof (induction kvs arbitrary: acc)
  case Nil
  then show ?case by simp
next
  case (Cons p kvs)
  obtain k v where p: "p = (k, v)" by (cases p)
  have "fst ` set (foldl (\<lambda>d (k, v). dict_set d k v) (dict_set acc k v) kvs)
        = fst ` set (dict_set acc k v) \<union> fst ` set kvs" by (rule Cons.IH)
  then show ?case by (simp add: p dict_set_keys)
qed

lemma dict_of_items_keys: "set (dict_keys (dict_of_items kvs)) = fst ` set kvs"
  using dict_of_items_keys_aux [of "[]" kvs] by (simp add: dict_of_items_def dict_keys_def)

lemma foldl_skip:
  assumes "\<And>st x. P x \<Longrightarrow> f st x = st"
  shows "foldl f st xs = foldl f st (filter (\<lambda>x. \<not> P x) xs)"
  using assms by (induction xs arbitrary: st) auto

lemma foldl_invariant:
  assumes "P a" and "\<And>a x. P a \<Longrightarrow> P (f a x)"
  shows "P (foldl f a xs)"
  using assms by (induction xs arbitrary: a) auto

lemma validate_ambiguous:
  "ambiguous_unqualified_columns (validate_against_schema sql sj) =
   snd (snd (unqualified_checks (py_lower (strip_strings sql))
      (detected_tables_cols_of (cols_by_table_of sj)
         (sort (remdups (map snd (build_alias_map (strip_strings sql))))))
      (candidates_of (strip_strings sql) (build_alias_map (strip_strings sql)) (cols_by_table_of sj))))"
  unfolding validate_against_schema_def Let_def by (simp only: validation.select_convs)

lemma validate_tables_detected:
  "tables_detected (validate_against_schema sql sj) =
   sort (remdups (map snd (build_alias_map (strip_strings sql))))"
  unfolding validate_against_schema_def Let_def by (simp only: validation.select_convs)

lemma validate_unknown_identifiers:
  "unknown_identifiers (validate_against_schema sql sj) =
   foldl (unknown_identifier_step
            (fst (snd (unqualified_checks (py_lower (strip_strings sql))
              (detected_tables_cols_of (cols_by_table_of sj)
                 (sort (remdups (map snd (build_alias_map (strip_strings sql))))))
              (candidates_of (strip_strings sql) (build_alias_map (strip_strings sql)) (cols_by_table_of sj)))))
            (snd (snd (unqualified_checks (py_lower (strip_strings sql))
              (detected_tables_cols_of (cols_by_table_of sj)
                 (sort (remdups (map snd (build_alias_map (strip_strings sql))))))
              (candidates_of (strip_strings sql) (build_alias_map (strip_strings sql)) (cols_by_table_of sj))))))
         (snd (snd (qualified_checks (build_alias_map (strip_strings sql)) (cols_by_table_of sj)
            (qualified_refs_of (strip_strings sql)))))
         (fst (unqualified_checks (py_lower (strip_strings sql))
              (detected_tables_cols_of (cols_by_table_of sj)
                 (sort (remdups (map snd (build_alias_map (strip_strings sql))))))
              (candidates_of (strip_strings sql) (build_alias_map (strip_strings sql)) (cols_by_table_of sj))))"
  unfolding validate_against_schema_def Let_def by (simp only: validation.select_convs)

lemma candidates_of_keys:
  assumes "set (dict_keys c1) = set (dict_keys c2)"
  shows "candidates_of sql am c1 = candidates_of sql am c2"
  unfolding candidates_of_def using assms by simp

lemma validate_unknown_aliases:
  "unknown_aliases (validate_against_schema sql sj) =
   fst (qualified_checks (build_alias_map (strip_strings sql)) (cols_by_table_of sj)
          (qualified_refs_of (strip_strings sql)))"
  unfolding validate_against_schema_def Let_def by (simp only: validation.select_convs)

lemma validate_unknown_columns:
  "unknown_columns (validate_against_schema sql sj) =
   fst (snd (qualified_checks (build_alias_map (strip_strings sql)) (cols_by_table_of sj)
          (qualified_refs_of (strip_strings sql))))"
  unfolding validate_against_schema_def Let_def by (simp only: validation.select_convs)

section \<open>Properties of the classifier\<close>

lemma classify_issue_never_user_issue:
  "issue_class (classify_issue v q sj) \<noteq> ''user_issue''"
  by (simp add: classify_issue_def Let_def)

lemma classify_issue_no_hard_signal:
  assumes "missing_tables v = []" "unknown_columns v = []" "unknown_aliases v = []"
    "invalid_joins v = []" "type_mismatches v = []"
  shows "classify_issue v q sj =
    \<lparr>issue_class = ''ok'', reason = ''No major validation issues detected.'', action = ''stop''\<rparr>"
  using assms by (simp add: classify_issue_def)

lemma ambiguous_report:
  "validate_against_schema ''SELECT name FROM a x JOIN b y'' schema_ab =
     \<lparr>tables_detected = [''a'', ''b''], missing_tables = [],
       alias_map = [(''x'', ''a''), (''y'', ''b'')], unknown_aliases = [],
       unknown_columns = [], unqualified_columns_resolved = [],
       ambiguous_unqualified_columns = [\<lparr>ac_column = ''name'', ac_tables = [''a'', ''b'']\<rparr>],
       unknown_identifiers = [], invalid_joins = [], join_warnings = [],
       type_mismatches = [],
       report_notes = [''Some unqualified column names are ambiguous; prefer alias.column.'']\<rparr>"
  by code_simp

text \<open>
  Claim C1 says that a report whose only finding is an ambiguous unqualified column is
  classified \<open>user_issue\<close> with action \<open>ask_user\<close>. The program answers \<open>ok\<close> with action
  \<open>stop\<close>: the test for hard signals leaves the ambiguous columns out, and the branch that
  answers \<open>user_issue\<close> comes after it, where no report can reach it
  (\<open>classify_issue_never_user_issue\<close>). The statement runs the validator and the
  classifier on such an input.
\<close>

theorem classify_issue_pure_ambiguity:
  "ambiguous_unqualified_columns (validate_against_schema ''SELECT name FROM a x JOIN b y'' schema_ab)
     = [\<lparr>ac_column = ''name'', ac_tables = [''a'', ''b'']\<rparr>]
   \<and> classify_issue (validate_against_schema ''SELECT name FROM a x JOIN b y'' schema_ab)
        ''list the names'' schema_ab
     = \<lparr>issue_class = ''ok'', reason = ''No major validation issues detected.'', action = ''stop''\<rparr>"
  unfolding ambiguous_report by (simp add: classify_issue_no_hard_signal)

theorem classify_issue_pure_ambiguity_witness:
  "issue_class (classify_issue (validate_against_schema ''SELECT name FROM a x JOIN b y'' schema_ab)
        ''list the names'' schema_ab) = ''ok''"
  using classify_issue_pure_ambiguity by simp




section \<open>Properties of the identifier resolution\<close>

lemma cols_by_table_keys:
  "set (dict_keys (cols_by_table_of sj)) = py_lower ` set (dict_keys (tables sj))"
proof -
  have "fst ` set (map (\<lambda>(t, meta). (py_lower t, set (map (\<lambda>(c, tp). py_lower c) (t_columns meta))))
                        (tables sj)) = py_lower ` fst ` set (tables sj)"
    by (force simp: image_iff split: prod.splits)
  then show ?thesis unfolding cols_by_table_of_def dict_of_items_keys by (simp add: dict_keys_def)
qed

lemma qualified_step_unbound_table:
  assumes "names_unbound_table am sj a"
  shows "qualified_step am (cols_by_table_of sj) st (a, c) = st"
proof -
  have k: "py_lower a \<in> set (dict_keys (cols_by_table_of sj))"
    using assms unfolding names_unbound_table_def cols_by_table_keys by blast
  have n: "dict_get am (py_lower a) = None"
    using assms unfolding names_unbound_table_def by blast
  obtain ua uc ui where st: "st = (ua, uc, ui)" by (cases st)
  show ?thesis unfolding st qualified_step_def Let_def using k n by simp
qed

lemma qualified_checks_skip:
  "qualified_checks am (cols_by_table_of sj) refs =
   qualified_checks am (cols_by_table_of sj) (filter (\<lambda>(a, c). \<not> names_unbound_table am sj a) refs)"
proof -
  have "foldl (qualified_step am (cols_by_table_of sj)) ([], [], []) refs =
        foldl (qualified_step am (cols_by_table_of sj)) ([], [], [])
              (filter (\<lambda>x. \<not> names_unbound_table am sj (fst x)) refs)"
  proof (rule foldl_skip)
    fix st :: qual_state and x :: "string \<times> string"
    assume "names_unbound_table am sj (fst x)"
    then show "qualified_step am (cols_by_table_of sj) st x = st"
      by (cases x) (simp add: qualified_step_unbound_table)
  qed
  then show ?thesis by (simp add: qualified_checks_def case_prod_unfold)
qed

text \<open>
  Claim C10. A qualified reference whose qualifier is bound by no FROM or JOIN, but is the
  name of a table of the schema when the case of the letters is ignored, leaves the three
  lists of the qualified loop as they are, whatever its column; so the \<open>unknown_aliases\<close>
  and the \<open>unknown_columns\<close> of the report are those of the statement's other references.
\<close>

theorem unbound_table_qualifier_adds_nothing:
  "(names_unbound_table am sj a \<longrightarrow> qualified_step am (cols_by_table_of sj) st (a, c) = st)
   \<and> unknown_aliases (validate_against_schema sql sj) =
       fst (qualified_checks (build_alias_map (strip_strings sql)) (cols_by_table_of sj)
              (filter (\<lambda>(a, c). \<not> names_unbound_table (build_alias_map (strip_strings sql)) sj a)
                      (qualified_refs_of (strip_strings sql))))
   \<and> unknown_columns (validate_against_schema sql sj) =
       fst (snd (qualified_checks (build_alias_map (strip_strings sql)) (cols_by_table_of sj)
              (filter (\<lambda>(a, c). \<not> names_unbound_table (build_alias_map (strip_strings sql)) sj a)
                      (qualified_refs_of (strip_strings sql)))))"
  unfolding validate_unknown_aliases validate_unknown_columns
  using qualified_checks_skip [of "build_alias_map (strip_strings sql)" sj
          "qualified_refs_of (strip_strings sql)"]
  by (simp add: qualified_step_unbound_table)

theorem unbound_table_qualifier_adds_nothing_witness:
  "names_unbound_table [(''b'', ''branches'')] employees_schema ''Employees''
   \<and> ''salary'' \<notin> dict_get_or (cols_by_table_of employees_schema) ''employees'' {}
   \<and> qualified_step [(''b'', ''branches'')] (cols_by_table_of employees_schema) ([], [], [])
        (''Employees'', ''salary'') = ([], [], [])"
proof -
  have n: "names_unbound_table [(''b'', ''branches'')] employees_schema ''Employees''" by code_simp
  have s: "''salary'' \<notin> dict_get_or (cols_by_table_of employees_schema) ''employees'' {}" by code_simp
  show ?thesis
    using unbound_table_qualifier_adds_nothing
            [of "[(''b'', ''branches'')]" employees_schema "''Employees''" "([], [], [])" "''salary''"] n s
    by simp
qed

lemma sql1_strip: "strip_strings ''SELECT name FROM a, b'' = ''SELECT name FROM a, b''" by code_simp
lemma sql1_lower: "py_lower ''SELECT name FROM a, b'' = ''select name from a, b''" by code_simp
lemma sql1_aliases: "build_alias_map ''SELECT name FROM a, b'' = []" by code_simp
lemma sql1_refs: "qualified_refs_of ''SELECT name FROM a, b'' = []" by code_simp
lemma sql1_candidates:
  "candidates_of ''SELECT name FROM a, b'' [] [(''a'', {}), (''b'', {})] = [''name'']" by code_simp
lemma sql1_not_qualified:
  "re_search False (qualified_use_re ''name'') ''select name from a, b'' = None" by code_simp

lemma sql2_strip: "strip_strings ''SELECT name FROM a x JOIN b y'' = ''SELECT name FROM a x JOIN b y''" by code_simp
lemma sql2_lower: "py_lower ''SELECT name FROM a x JOIN b y'' = ''select name from a x join b y''" by code_simp
lemma sql2_aliases: "build_alias_map ''SELECT name FROM a x JOIN b y'' = [(''x'', ''a''), (''y'', ''b'')]" by code_simp
lemma sql2_detected: "sort (remdups (map snd [(''x'', ''a''), (''y'', ''b'')])) = [''a'', ''b'']" by code_simp
lemma sql2_candidates:
  "candidates_of ''SELECT name FROM a x JOIN b y'' [(''x'', ''a''), (''y'', ''b'')] [(''a'', {}), (''b'', {})] = [''name'']" by code_simp
lemma sql2_not_qualified:
  "re_search False (qualified_use_re ''name'') ''select name from a x join b y'' = None" by code_simp

lemma lower_a: "py_lower ''a'' = ''a''" by code_simp
lemma lower_b: "py_lower ''b'' = ''b''" by code_simp
lemma lower_name: "py_lower ''name'' = ''name''" by code_simp


lemma name_in_columns:
  assumes "''name'' \<in> set (dict_keys (t_columns m))"
  shows "''name'' \<in> set (map (\<lambda>(c, tp). py_lower c) (t_columns m))"
proof -
  from assms obtain tp where "(''name'', tp) \<in> set (t_columns m)"
    by (auto simp: dict_keys_def)
  then have "(case (''name'', tp) of (c, tp) \<Rightarrow> py_lower c) \<in> (\<lambda>(c, tp). py_lower c) ` set (t_columns m)"
    by (rule imageI)
  then show ?thesis by (simp add: lower_name)
qed

lemma two_tables_schema:
  assumes "tables sj = [(''a'', ma), (''b'', mb)] \<or> tables sj = [(''b'', mb), (''a'', ma)]"
    and "''name'' \<in> set (dict_keys (t_columns ma))"
    and "''name'' \<in> set (dict_keys (t_columns mb))"
  shows "two_tables_with_name (cols_by_table_of sj)"
proof -
  define A where "A = set (map (\<lambda>(c, tp). py_lower c) (t_columns ma))"
  define B where "B = set (map (\<lambda>(c, tp). py_lower c) (t_columns mb))"
  have na: "''name'' \<in> A" unfolding A_def using assms(2) by (rule name_in_columns)
  have nb: "''name'' \<in> B" unfolding B_def using assms(3) by (rule name_in_columns)
  from assms(1) have "cols_by_table_of sj = [(''a'', A), (''b'', B)]
                    \<or> cols_by_table_of sj = [(''b'', B), (''a'', A)]"
    by (auto simp: cols_by_table_of_def dict_of_items_def lower_a lower_b A_def B_def)
  then show ?thesis
  proof
    assume e: "cols_by_table_of sj = [(''a'', A), (''b'', B)]"
    show ?thesis unfolding two_tables_with_name_def e using na nb
      by (simp add: dict_keys_def dict_get_or_def dict_get_def)
  next
    assume e: "cols_by_table_of sj = [(''b'', B), (''a'', A)]"
    show ?thesis unfolding two_tables_with_name_def e using na nb
      by (simp add: dict_keys_def dict_get_or_def dict_get_def insert_commute)
  qed
qed

lemma sql1_resolution:
  assumes "two_tables_with_name (cols_by_table_of sj)"
  shows "unqualified_checks (py_lower (strip_strings ''SELECT name FROM a, b''))
      (detected_tables_cols_of (cols_by_table_of sj)
         (sort (remdups (map snd (build_alias_map (strip_strings ''SELECT name FROM a, b''))))))
      (candidates_of (strip_strings ''SELECT name FROM a, b'')
         (build_alias_map (strip_strings ''SELECT name FROM a, b'')) (cols_by_table_of sj))
    = ([''name''], [], [])"
proof -
  have k: "set (dict_keys (cols_by_table_of sj)) = set (dict_keys [(''a'', {}), (''b'', {}::string set)])"
    using assms by (simp add: two_tables_with_name_def dict_keys_def insert_commute)
  have c: "candidates_of ''SELECT name FROM a, b'' [] (cols_by_table_of sj) = [''name'']"
    using candidates_of_keys [OF k] sql1_candidates by simp
  have d: "detected_tables_cols_of (cols_by_table_of sj) [] = []"
    by (simp add: detected_tables_cols_of_def)
  have s: "unqualified_step ''select name from a, b'' [] ([], [], []) ''name'' = ([''name''], [], [])"
    by (simp add: unqualified_step_def sql1_not_qualified)
  show ?thesis
    unfolding sql1_strip sql1_lower sql1_aliases
    by (simp add: c d s unqualified_checks_def)
qed

lemma sql2_resolution:
  assumes "two_tables_with_name (cols_by_table_of sj)"
  shows "unqualified_checks (py_lower (strip_strings ''SELECT name FROM a x JOIN b y''))
      (detected_tables_cols_of (cols_by_table_of sj)
         (sort (remdups (map snd (build_alias_map (strip_strings ''SELECT name FROM a x JOIN b y''))))))
      (candidates_of (strip_strings ''SELECT name FROM a x JOIN b y'')
         (build_alias_map (strip_strings ''SELECT name FROM a x JOIN b y'')) (cols_by_table_of sj))
    = ([''name''], [], [\<lparr>ac_column = ''name'', ac_tables = [''a'', ''b'']\<rparr>])"
proof -
  let ?cbt = "cols_by_table_of sj"
  have k: "set (dict_keys ?cbt) = set (dict_keys [(''a'', {}), (''b'', {}::string set)])"
    using assms by (simp add: two_tables_with_name_def dict_keys_def insert_commute)
  have c: "candidates_of ''SELECT name FROM a x JOIN b y'' [(''x'', ''a''), (''y'', ''b'')] ?cbt = [''name'']"
    using candidates_of_keys [OF k] sql2_candidates by simp
  have ka: "''a'' \<in> set (dict_keys ?cbt)" and kb: "''b'' \<in> set (dict_keys ?cbt)"
    using assms by (simp_all add: two_tables_with_name_def)
  have d: "detected_tables_cols_of ?cbt [''a'', ''b'']
           = [(''a'', dict_get_or ?cbt ''a'' {}), (''b'', dict_get_or ?cbt ''b'' {})]"
    using ka kb by (simp add: detected_tables_cols_of_def)
  have na: "''name'' \<in> dict_get_or ?cbt ''a'' {}" and nb: "''name'' \<in> dict_get_or ?cbt ''b'' {}"
    using assms by (simp_all add: two_tables_with_name_def)
  have s: "unqualified_step ''select name from a x join b y''
             [(''a'', dict_get_or ?cbt ''a'' {}), (''b'', dict_get_or ?cbt ''b'' {})] ([], [], []) ''name''
           = ([''name''], [], [\<lparr>ac_column = ''name'', ac_tables = [''a'', ''b'']\<rparr>])"
    using na nb by (simp add: unqualified_step_def sql2_not_qualified)
  show ?thesis
    unfolding sql2_strip sql2_lower sql2_aliases sql2_detected
    by (simp add: c d s unqualified_checks_def)
qed


text \<open>
  Claim C2, as amended. For a schema with exactly the two tables \<open>a\<close> and \<open>b\<close>, both with a
  column \<open>name\<close>: validating \<open>SELECT name FROM a, b\<close> detects no table, since a table listed
  without an alias is not bound; no column is reported ambiguous, and \<open>name\<close> is reported
  as an unknown identifier. When both tables are bound to aliases, as in
  \<open>SELECT name FROM a x JOIN b y\<close>, \<open>name\<close> is reported ambiguous with both owning tables.
\<close>

theorem unqualified_name_in_two_tables:
  assumes "tables sj = [(''a'', ma), (''b'', mb)] \<or> tables sj = [(''b'', mb), (''a'', ma)]"
    and "''name'' \<in> set (dict_keys (t_columns ma))"
    and "''name'' \<in> set (dict_keys (t_columns mb))"
  shows "tables_detected (validate_against_schema ''SELECT name FROM a, b'' sj) = []
       \<and> ambiguous_unqualified_columns (validate_against_schema ''SELECT name FROM a, b'' sj) = []
       \<and> unknown_identifiers (validate_against_schema ''SELECT name FROM a, b'' sj) = [''name'']
       \<and> ambiguous_unqualified_columns (validate_against_schema ''SELECT name FROM a x JOIN b y'' sj)
           = [\<lparr>ac_column = ''name'', ac_tables = [''a'', ''b'']\<rparr>]"
proof -
  have t: "two_tables_with_name (cols_by_table_of sj)" using assms by (rule two_tables_schema)
  have 1: "tables_detected (validate_against_schema ''SELECT name FROM a, b'' sj) = []"
    unfolding validate_tables_detected sql1_strip sql1_aliases by simp
  have 2: "ambiguous_unqualified_columns (validate_against_schema ''SELECT name FROM a, b'' sj) = []"
    unfolding validate_ambiguous sql1_resolution [OF t] by simp
  have q: "qualified_checks (build_alias_map (strip_strings ''SELECT name FROM a, b'')) (cols_by_table_of sj)
            (qualified_refs_of (strip_strings ''SELECT name FROM a, b'')) = ([], [], [])"
    unfolding sql1_strip sql1_refs by (simp add: qualified_checks_def)
  have 3: "unknown_identifiers (validate_against_schema ''SELECT name FROM a, b'' sj) = [''name'']"
    unfolding validate_unknown_identifiers sql1_resolution [OF t] q
    by (simp add: unknown_identifier_step_def)
  have 4: "ambiguous_unqualified_columns (validate_against_schema ''SELECT name FROM a x JOIN b y'' sj)
           = [\<lparr>ac_column = ''name'', ac_tables = [''a'', ''b'']\<rparr>]"
    unfolding validate_ambiguous sql2_resolution [OF t] by simp
  show ?thesis using 1 2 3 4 by simp
qed

theorem unqualified_name_in_two_tables_witness:
  "tables schema_ab =
     [(''a'', \<lparr>t_columns = [(''name'', ''TEXT'')], t_primary_key = [], t_foreign_keys = []\<rparr>),
      (''b'', \<lparr>t_columns = [(''name'', ''TEXT'')], t_primary_key = [], t_foreign_keys = []\<rparr>)]
   \<and> ''name'' \<in> set (dict_keys [(''name'', ''TEXT'')])
   \<and> unknown_identifiers (validate_against_schema ''SELECT name FROM a, b'' schema_ab) = [''name'']
   \<and> ambiguous_unqualified_columns (validate_against_schema ''SELECT name FROM a x JOIN b y'' schema_ab)
       = [\<lparr>ac_column = ''name'', ac_tables = [''a'', ''b'']\<rparr>]"
proof -
  let ?m = "\<lparr>t_columns = [(''name'', ''TEXT'')], t_primary_key = [], t_foreign_keys = []\<rparr>"
  have t: "tables schema_ab = [(''a'', ?m), (''b'', ?m)] \<or> tables schema_ab = [(''b'', ?m), (''a'', ?m)]"
    by (simp add: schema_ab_def)
  have n: "''name'' \<in> set (dict_keys (t_columns ?m))" by (simp add: dict_keys_def)
  show ?thesis
    using unqualified_name_in_two_tables [OF t n n] n by (simp add: schema_ab_def)
qed

text \<open>
  Where claim C2 fails as it is stated: for \<open>SELECT name FROM a, b\<close> the report lists no
  ambiguous column at all.
\<close>

theorem unqualified_name_in_two_tables_counterexample:
  "tables_detected (validate_against_schema ''SELECT name FROM a, b'' schema_ab) = []
   \<and> ambiguous_unqualified_columns (validate_against_schema ''SELECT name FROM a, b'' schema_ab) = []"
  by code_simp

section \<open>Properties of the schema extractor\<close>

subsection \<open>The example schema\<close>

lemma parse_employees_ddl:
  "parse_schema_sql employees_ddl =
     [(''employees'',
       \<lparr>name = ''employees'',
         columns = [(''emp_id'', ''INT''), (''branch_id'', ''INT'')],
         primary_key = [''emp_id''],
         foreign_keys = [\<lparr>column = ''branch_id'', ref_table = ''branches'', ref_column = ''branch_id''\<rparr>]\<rparr>),
      (''branches'',
       \<lparr>name = ''branches'',
         columns = [(''branch_id'', ''INT''), (''branch_name'', ''TEXT'')],
         primary_key = [''branch_id''],
         foreign_keys = []\<rparr>)]"
  by code_simp

lemma employees_schema_parsed:
  "to_schema_json (parse_schema_sql employees_ddl) = employees_schema"
  unfolding parse_employees_ddl by code_simp

text \<open>
  Claim C6. Parsing the DDL text of the example gives exactly the two tables \<open>employees\<close>
  and \<open>branches\<close>; the primary key of \<open>employees\<close> is \<open>["emp_id"]\<close> and its foreign keys are
  the single edge from \<open>branch_id\<close> to \<open>branches(branch_id)\<close>.
\<close>

theorem parse_schema_sql_employees_example:
  "dict_keys (parse_schema_sql employees_ddl) = [''employees'', ''branches'']
   \<and> map_option primary_key (dict_get (parse_schema_sql employees_ddl) ''employees'')
       = Some [''emp_id'']
   \<and> map_option foreign_keys (dict_get (parse_schema_sql employees_ddl) ''employees'')
       = Some [\<lparr>column = ''branch_id'', ref_table = ''branches'', ref_column = ''branch_id''\<rparr>]"
  unfolding parse_employees_ddl by (simp add: dict_keys_def dict_get_def)

text \<open>
  Claim C7. Against the schema of the example, the statement that joins \<open>e.emp_id\<close> with
  \<open>b.branch_name\<close> gets a report whose \<open>invalid_joins\<close> is not empty, no foreign key
  matching the equality in either direction, and whose \<open>type_mismatches\<close> has an entry of
  kind \<open>join\<close>, \<open>emp_id\<close> being numeric and \<open>branch_name\<close> text. Each list has that one entry.
\<close>

theorem bad_join_is_reported:
  "invalid_joins (validate_against_schema bad_join_sql
                    (to_schema_json (parse_schema_sql employees_ddl)))
     = [\<lparr>ij_left = ''employees.emp_id'', ij_right = ''branches.branch_name'',
          ij_reason = ''No FK relationship found for this join condition''\<rparr>]
   \<and> type_mismatches (validate_against_schema bad_join_sql
                        (to_schema_json (parse_schema_sql employees_ddl)))
     = [\<lparr>tm_kind = ''join'', tm_expr = ''e.emp_id = b.branch_name'',
          tm_types = [(''left_type'', ''numeric''), (''right_type'', ''text'')],
          tm_reason = ''Join compares different column types''\<rparr>]"
  unfolding employees_schema_parsed by code_simp

subsection \<open>From the schema model to the dictionary and back\<close>

lemma table_step_well_keyed:
  assumes "well_keyed tbls"
  shows "well_keyed (table_step schema_sql tbls m)"
proof -
  define nm where "nm = clean_ident (last (py_split CHR ''.'' (group schema_sql m 1)))"
  obtain cols pk fks where
    f: "foldl item_step ([], [], []) (split_top_level_commas (group schema_sql m 2)) = (cols, pk, fks)"
    by (rule prod_cases3)
  define meta where
    "meta = \<lparr>name = nm, columns = cols, primary_key = fromkeys pk, foreign_keys = fks\<rparr>"
  have s: "table_step schema_sql tbls m = dict_set tbls nm meta"
    by (simp add: table_step_def Let_def f nm_def meta_def)
  have n: "name meta = nm" by (simp add: meta_def)
  have d: "distinct (map fst (dict_set tbls nm meta))"
    using assms by (simp add: well_keyed_def dict_set_distinct)
  have "\<forall>(k, m)\<in>set tbls. name m = k" using assms by (simp add: well_keyed_def)
  then have v: "\<forall>(k, m)\<in>set (dict_set tbls nm meta). name m = k"
    using n by (rule dict_set_values)
  show ?thesis unfolding s well_keyed_def using d v by (rule conjI)
qed

lemma well_keyed_Nil: "well_keyed []"
  by (simp add: well_keyed_def)

lemma parse_schema_sql_well_keyed: "well_keyed (parse_schema_sql schema_sql)"
  unfolding parse_schema_sql_def
  by (rule foldl_invariant [where P = well_keyed], rule well_keyed_Nil, rule table_step_well_keyed)

lemma fk_eta:
  "\<lparr>column = column x, ref_table = ref_table x, ref_column = ref_column x\<rparr> = (x::ForeignKey)"
  by (cases x) simp

lemma to_schema_json_distinct:
  assumes "distinct (map fst tbls)"
  shows "tables (to_schema_json tbls) =
     map (\<lambda>(tname, tmeta).
        (tname,
         \<lparr>t_columns = columns tmeta,
           t_primary_key = primary_key tmeta,
           t_foreign_keys =
             map (\<lambda>fk. \<lparr>fk_column = column fk, fk_ref_table = ref_table fk,
                         fk_ref_column = ref_column fk\<rparr>)
                 (foreign_keys tmeta)\<rparr>)) tbls"
proof -
  have "distinct (map fst (map (\<lambda>(tname, tmeta).
        (tname,
         \<lparr>t_columns = columns tmeta,
           t_primary_key = primary_key tmeta,
           t_foreign_keys =
             map (\<lambda>fk. \<lparr>fk_column = column fk, fk_ref_table = ref_table fk,
                         fk_ref_column = ref_column fk\<rparr>)
                 (foreign_keys tmeta)\<rparr>)) tbls))"
    using assms by (simp add: comp_def case_prod_unfold)
  then show ?thesis
    unfolding to_schema_json_def by (simp only: schema_json.select_convs dict_of_items_distinct)
qed

lemma roundtrip_well_keyed:
  assumes "well_keyed tbls"
  shows "deserialize (to_schema_json tbls) = tbls"
proof -
  have d: "distinct (map fst tbls)" using assms by (simp add: well_keyed_def)
  have "\<forall>p\<in>set tbls. name (snd p) = fst p"
    using assms by (auto simp: well_keyed_def)
  then have "map (\<lambda>p. (fst p, \<lparr>name = fst p, columns = columns (snd p),
                primary_key = primary_key (snd p), foreign_keys = foreign_keys (snd p)\<rparr>)) tbls = tbls"
    by (induction tbls) auto
  then show ?thesis
    unfolding deserialize_def to_schema_json_distinct [OF d]
    by (simp add: comp_def case_prod_unfold fk_eta)
qed

text \<open>
  Claim C8. For every schema model the extractor produces, reading back the dictionary
  \<open>to_schema_json\<close> makes of it gives the model again: the tables in their order, the
  columns with their type text, the primary key and the list of the foreign keys.
\<close>

theorem schema_roundtrip:
  "deserialize (to_schema_json (parse_schema_sql schema_sql)) = parse_schema_sql schema_sql"
  using parse_schema_sql_well_keyed by (rule roundtrip_well_keyed)

section \<open>The bound of the repair loop\<close>

lemma repair_loop_calls: "fst (repair_loop n calls cap sj q st) \<le> calls + n"
proof (induction n arbitrary: calls st)
  case 0
  then show ?case by simp
next
  case (Suc n)
  show ?case
  proof (cases "ai_fix_sql cap calls sj q (c_sql st) (c_validation st)")
    case (Inl e)
    then show ?thesis by simp
  next
    case (Inr sql)
    have "fst (repair_loop n (Suc calls) cap sj q (assess sj q sql)) \<le> Suc calls + n"
      by (rule Suc.IH)
    then show ?thesis using Inr by simp
  qed
qed

text \<open>
  Claim C3. Whatever the schema, the request and the replies of the generator, one request
  calls \<open>ai_fix_sql\<close> at most twice.
\<close>

theorem repair_calls_at_most_two: "fst (generate cap sj q) \<le> 2"
proof (cases "ai_generate_sql cap sj q")
  case (Inl e)
  then show ?thesis by (cases e) (simp_all add: generate_def)
next
  case (Inr sql)
  have "fst (repair_loop 2 0 cap sj q (assess sj q sql)) \<le> 0 + 2"
    by (rule repair_loop_calls)
  then show ?thesis using Inr
    by (cases "repair_loop 2 0 cap sj q (assess sj q sql)") (auto simp: generate_def split: sum.splits)
qed

theorem repair_calls_at_most_two_witness:
  "fst (generate stubborn employees_schema ''employees per branch'') \<le> 2
   \<and> fst (generate stubborn employees_schema ''employees per branch'') = 2"
proof -
  have e: "fst (generate stubborn employees_schema ''employees per branch'') = 2" by code_simp
  show ?thesis
    using repair_calls_at_most_two [of stubborn employees_schema "''employees per branch''"] e
    by simp
qed

end
